theory Spec2Isabelle
  imports Complex_Main "HOL-Library.AList"
begin

section \<open>Python values\<close>

text \<open>
  A Python string is a sequence of Unicode code points and \<open>len\<close> counts code points, so
  a string is modelled as a list of code points. Literals of the source are written with
  \<open>py\<close>; the three non-ASCII glyphs of \<^verbatim>\<open>utils copy.py\<close> are given by their code points.
\<close>

type_synonym codepoint = nat
type_synonym pystr = "codepoint list"

definition py :: "string \<Rightarrow> pystr" where
  "py s = map of_char s"

definition newline :: codepoint where
  "newline = 10"

definition up_arrow :: pystr where
  "up_arrow = [0x279A]"

definition down_arrow :: pystr where
  "down_arrow = [0x2798]"

definition approx_sign :: pystr where
  "approx_sign = [0x2248]"

text \<open>Decimal rendering of an integer, as \<open>str\<close> and an f-string do for a Python int.\<close>

function str_nat :: "nat \<Rightarrow> pystr" where
  "str_nat n = (if n < 10 then [48 + n] else str_nat (n div 10) @ [48 + n mod 10])"
  by pat_completeness auto
termination
  by (relation "measure (\<lambda>n. n)") auto

declare str_nat.simps [simp del]

definition str_int :: "int \<Rightarrow> pystr" where
  "str_int i = (if i < 0 then 45 # str_nat (nat (- i)) else str_nat (nat i))"

text \<open>An absent value (\<open>None\<close>) interpolated into an f-string renders as the text None.\<close>

definition str_opt :: "pystr option \<Rightarrow> pystr" where
  "str_opt v = (case v of None \<Rightarrow> py ''None'' | Some s \<Rightarrow> s)"

text \<open>
  Numbers. A Python int is unbounded; a float is modelled by the rational it denotes, so
  the arithmetic of the model is exact: there is no rounding, overflow, infinity or NaN.
  The two kinds are kept apart because they render differently.
\<close>

datatype pynum = PyInt int | PyFloat rat

fun num_val :: "pynum \<Rightarrow> rat" where
  "num_val (PyInt n) = of_int n"
| "num_val (PyFloat q) = q"

text \<open>A metric value or a function argument that may be \<open>None\<close>.\<close>

type_synonym pyval = "pynum option"

fun truthy_val :: "pyval \<Rightarrow> bool" where
  "truthy_val None = False"
| "truthy_val (Some n) = (num_val n \<noteq> 0)"

text \<open>\<open>v != 0\<close> in Python: \<open>None\<close> differs from 0, a number is compared by value.\<close>

fun differs_from_zero :: "pyval \<Rightarrow> bool" where
  "differs_from_zero None = True"
| "differs_from_zero (Some n) = (num_val n \<noteq> 0)"

text \<open>Floor division, remainder and \<open>round\<close> (ties go to the even integer).\<close>

definition py_floordiv :: "rat \<Rightarrow> rat \<Rightarrow> rat" where
  "py_floordiv x y = of_int \<lfloor>x / y\<rfloor>"

definition py_mod :: "rat \<Rightarrow> rat \<Rightarrow> rat" where
  "py_mod x y = x - y * of_int \<lfloor>x / y\<rfloor>"

definition py_round :: "rat \<Rightarrow> int" where
  "py_round x =
     (let f = \<lfloor>x\<rfloor>; d = x - of_int f
      in if d < 1 / 2 then f
         else if 1 / 2 < d then f + 1
         else if even f then f else f + 1)"

section \<open>Library behaviour taken as a parameter\<close>

text \<open>
  The conversions between text and numbers that Python's library performs, and the enum
  modules of the repository that are not part of the sources at hand, are parameters of
  the model.
\<close>

text \<open>A decoded JSON value.\<close>

datatype json =
    JNull
  | JBool bool
  | JInt int
  | JFloat rat
  | JStr pystr
  | JArr "json list"
  | JObj "(pystr \<times> json) list"

text \<open>
  Modelled from the spec: the module \<^verbatim>\<open>enums\<close> is not among the sources. The members of
  \<open>MetricCategory\<close> and \<open>MetricsName\<close> are the ones the source refers to; the text each
  renders as, and the tags of the three event types that \<open>handle_export_event\<close> compares
  with, are fields of the parameter record.
\<close>

datatype MetricCategory =
  cat_project_creation | cat_user_activity | cat_share_activity | cat_export

datatype MetricsName =
    singlecam_project_created | multicam_project_created
  | project_created_by_web | project_created_by_desktop_app
  | file_uploaded | file_upload_failed | total_video_duration
  | new_user | returning_user
  | create_share_link | open_share_link
  | export_mp4_landscape | export_mp4_landscape_with_captions
  | export_mp4_landscape_without_captions
  | export_mp4_vertical | export_mp4_vertical_with_captions
  | export_mp4_vertical_without_captions
  | export_adobe | export_resolve | export_fcp | total_exports

record pylib =
  decode_json :: "pystr \<Rightarrow> json option"
  float_of_str :: "pystr \<Rightarrow> rat option"
  int_of_str :: "pystr \<Rightarrow> int option"
  str_float :: "rat \<Rightarrow> pystr"
  str_container :: "json \<Rightarrow> pystr"
  fmt_1f :: "rat \<Rightarrow> pystr"
  fmt_2f :: "rat \<Rightarrow> pystr"
  user_submit_prompt :: pystr
  user_click_prompt_suggest :: pystr
  file_export_succeeded :: pystr
  category_value :: "MetricCategory \<Rightarrow> pystr"
  metric_name_str :: "MetricsName \<Rightarrow> pystr"

section \<open>JSON values as Python sees them\<close>

text \<open>
  \<open>json.load\<close> turns a JSON document into Python values: \<open>JNull\<close> is \<open>None\<close>, \<open>JObj\<close>
  a dict (each key listed once), \<open>JArr\<close> a list. A missing key read with \<open>.get(k)\<close> is
  \<open>None\<close> too. Dictionary keys and \<open>==\<close> are compared structurally here; Python also
  identifies the keys \<open>1\<close>, \<open>1.0\<close> and \<open>True\<close>, which identifiers that are strings never meet.
\<close>

datatype error = AttributeError | TypeError | ValueError

fun truthy :: "json \<Rightarrow> bool" where
  "truthy JNull = False"
| "truthy (JBool b) = b"
| "truthy (JInt n) = (n \<noteq> 0)"
| "truthy (JFloat q) = (q \<noteq> 0)"
| "truthy (JStr s) = (s \<noteq> [])"
| "truthy (JArr xs) = (xs \<noteq> [])"
| "truthy (JObj kvs) = (kvs \<noteq> [])"

text \<open>\<open>d.get(k, default)\<close> and \<open>d.get(k)\<close> on a dict.\<close>

definition getd :: "(pystr \<times> json) list \<Rightarrow> pystr \<Rightarrow> json \<Rightarrow> json" where
  "getd kvs k d = (case map_of kvs k of None \<Rightarrow> d | Some v \<Rightarrow> v)"

definition get :: "(pystr \<times> json) list \<Rightarrow> pystr \<Rightarrow> json" where
  "get kvs k = getd kvs k JNull"

text \<open>A value that can be hashed, as membership in a set literal requires.\<close>

fun hashable :: "json \<Rightarrow> bool" where
  "hashable (JArr xs) = False"
| "hashable (JObj kvs) = False"
| "hashable v = True"

text \<open>A value interpolated into an f-string.\<close>

fun py_str :: "pylib \<Rightarrow> json \<Rightarrow> pystr" where
  "py_str lib JNull = py ''None''"
| "py_str lib (JBool b) = (if b then py ''True'' else py ''False'')"
| "py_str lib (JInt n) = str_int n"
| "py_str lib (JFloat q) = str_float lib q"
| "py_str lib (JStr s) = s"
| "py_str lib v = str_container lib v"

text \<open>\<open>int(v)\<close> and \<open>float(v)\<close>, with the exception each raises.\<close>

fun py_int :: "pylib \<Rightarrow> json \<Rightarrow> error + int" where
  "py_int lib (JInt n) = Inr n"
| "py_int lib (JBool b) = Inr (if b then 1 else 0)"
| "py_int lib (JFloat q) = Inr (if q \<ge> 0 then \<lfloor>q\<rfloor> else \<lceil>q\<rceil>)"
| "py_int lib (JStr s) = (case int_of_str lib s of None \<Rightarrow> Inl ValueError | Some n \<Rightarrow> Inr n)"
| "py_int lib v = Inl TypeError"

fun py_float :: "pylib \<Rightarrow> json \<Rightarrow> error + rat" where
  "py_float lib (JInt n) = Inr (of_int n)"
| "py_float lib (JBool b) = Inr (if b then 1 else 0)"
| "py_float lib (JFloat q) = Inr q"
| "py_float lib (JStr s) = (case float_of_str lib s of None \<Rightarrow> Inl ValueError | Some q \<Rightarrow> Inr q)"
| "py_float lib v = Inl TypeError"

text \<open>
  \<open>json.loads\<close>; \<open>None\<close> stands for \<open>JSONDecodeError\<close>. The decoder is a parameter, except
  on the text \<open>[]\<close>, which the source itself passes as a default and which is the empty list.
\<close>

definition json_loads :: "pylib \<Rightarrow> pystr \<Rightarrow> json option" where
  "json_loads lib s = (if s = py ''[]'' then Some (JArr []) else decode_json lib s)"

text \<open>\<open>sep.join(xs)\<close>.\<close>

fun join :: "pystr \<Rightarrow> pystr list \<Rightarrow> pystr" where
  "join sep [] = []"
| "join sep [x] = x"
| "join sep (x # y # ys) = x @ sep @ join sep (y # ys)"

section \<open>The formatters of \<^verbatim>\<open>utils copy.py\<close>\<close>

definition seconds_to_readable_time :: "rat \<Rightarrow> pystr option" where
  "seconds_to_readable_time seconds0 =
     (if seconds0 = 0 then None
      else
        let minutes0 = py_floordiv seconds0 60;
            hours = py_floordiv minutes0 60;
            seconds = py_mod seconds0 60;
            minutes = py_mod minutes0 60;
            time_string = [];
            time_string = (if hours > 0 then time_string @ str_int (py_round hours) @ py ''h''
                           else time_string);
            time_string = (if minutes > 0 then time_string @ str_int (py_round minutes) @ py ''m''
                           else time_string);
            time_string = (if seconds > 0 \<or> time_string = []
                           then time_string @ str_int (py_round seconds) @ py ''s''
                           else time_string)
        in Some time_string)"

definition format_percentage_change :: "pylib \<Rightarrow> pyval \<Rightarrow> pyval \<Rightarrow> pystr option" where
  "format_percentage_change lib daily_value prev_period_value =
     (if \<not> truthy_val daily_value \<or> \<not> truthy_val prev_period_value then None
      else
        case (daily_value, prev_period_value) of
          (Some dv, Some pv) \<Rightarrow>
            let d = num_val dv; p = num_val pv
            in if p = 0 then
                 (if d > 0 then Some (py ''('' @ up_arrow @ py ''100%)'')
                  else if d < 0 then Some (py ''('' @ down_arrow @ py ''100%)'')
                  else Some (py ''('' @ approx_sign @ py ''0%)''))
               else
                 let difference = ((d - p) / p) * 100
                 in if difference \<ge> 1 / 10 then
                      Some (py ''('' @ up_arrow @ fmt_1f lib difference @ py ''%)'')
                    else if difference < 0 then
                      Some (py ''('' @ down_arrow @ fmt_1f lib \<bar>difference\<bar> @ py ''%)'')
                    else Some (py ''('' @ approx_sign @ py ''0%)'')
        | _ \<Rightarrow> None)"

fun format_bytes_loop :: "pylib \<Rightarrow> int \<Rightarrow> (int \<times> pystr) list \<Rightarrow> pystr" where
  "format_bytes_loop lib bytes [] = str_int bytes @ py '' B''"
| "format_bytes_loop lib bytes ((sz, u) # rest) =
     (if bytes \<ge> sz then fmt_2f lib (of_int bytes / of_int sz) @ py '' '' @ u
      else format_bytes_loop lib bytes rest)"

definition format_bytes :: "pylib \<Rightarrow> int \<Rightarrow> pystr option" where
  "format_bytes lib bytes =
     (if bytes = 0 then None
      else Some (format_bytes_loop lib bytes
             [(1024 ^ 4, py ''TB''), (1024 ^ 3, py ''GB''), (1024 ^ 2, py ''MB''),
              (1024 ^ 1, py ''KB'')]))"

section \<open>The report renderer \<^verbatim>\<open>build_analytics_message\<close>\<close>

text \<open>
  Modelled from the spec: the classes \<open>MetricsData\<close> and \<open>ReportMetrics\<close> of
  \<^verbatim>\<open>models.metrics_model\<close> are not among the sources. The spec gives them as a two-level
  mapping, category to metric name to a numeric value or \<open>None\<close>, in insertion order;
  as plain objects they are truthy.
\<close>

record MetricsData =
  metrics :: "(MetricsName \<times> pyval) list"

record ReportMetrics =
  data :: "(MetricCategory \<times> MetricsData) list"

text \<open>A number, or \<open>None\<close>, interpolated into an f-string.\<close>

fun str_val :: "pylib \<Rightarrow> pyval \<Rightarrow> pystr" where
  "str_val lib None = py ''None''"
| "str_val lib (Some (PyInt n)) = str_int n"
| "str_val lib (Some (PyFloat q)) = str_float lib q"

text \<open>The value looked up in the comparison period, \<open>None\<close> when the category or the metric is missing.\<close>

definition prev_period_value :: "ReportMetrics \<Rightarrow> MetricCategory \<Rightarrow> MetricsName \<Rightarrow> pyval" where
  "prev_period_value prev_period_metrics_data metric_type metric_name =
     (case map_of (data prev_period_metrics_data) metric_type of
        None \<Rightarrow> None
      | Some prev_period_data \<Rightarrow>
          (case map_of (metrics prev_period_data) metric_name of
             None \<Rightarrow> None
           | Some v \<Rightarrow> v))"

definition compare_str :: "pylib \<Rightarrow> pyval \<Rightarrow> pyval \<Rightarrow> pystr" where
  "compare_str lib val prev =
     (if \<not> truthy_val prev \<and> differs_from_zero prev then py ''(No data for previous period)''
      else str_opt (format_percentage_change lib val prev))"

text \<open>The text one metric adds to \<open>str_msg\<close>: the body of the inner loop.\<close>

definition metric_line ::
  "pylib \<Rightarrow> ReportMetrics \<Rightarrow> MetricCategory \<Rightarrow> MetricsName \<Rightarrow> pyval \<Rightarrow> pystr" where
  "metric_line lib prev_period_metrics_data metric_type metric_name val =
     (let whitespace = py ''          '' in
      if \<not> truthy_val val \<and> differs_from_zero val then
        newline # py ''>f'' @ whitespace @ py ''- *'' @ metric_name_str lib metric_name
          @ py '':* No data found''
      else
        let prev = prev_period_value prev_period_metrics_data metric_type metric_name;
            cmp = compare_str lib val prev;
            shown = (if metric_name = total_video_duration then
                       str_opt (case val of None \<Rightarrow> None
                                | Some v \<Rightarrow> seconds_to_readable_time (num_val v))
                     else str_val lib val);
            whitespace = (if metric_name \<noteq> total_video_duration
                             \<and> metric_name \<in> set [export_mp4_landscape_with_captions,
                                   export_mp4_landscape_without_captions,
                                   export_mp4_vertical_with_captions,
                                   export_mp4_vertical_without_captions]
                          then whitespace @ whitespace else whitespace)
        in newline # py ''>'' @ whitespace @ py ''- *'' @ metric_name_str lib metric_name
             @ py '':* '' @ shown @ py '' '' @ cmp)"

fun metrics_loop ::
  "pylib \<Rightarrow> ReportMetrics \<Rightarrow> MetricCategory \<Rightarrow> pystr \<Rightarrow> (MetricsName \<times> pyval) list \<Rightarrow> pystr" where
  "metrics_loop lib prev metric_type str_msg [] = str_msg"
| "metrics_loop lib prev metric_type str_msg ((metric_name, val) # rest) =
     metrics_loop lib prev metric_type
       (str_msg @ metric_line lib prev metric_type metric_name val) rest"

fun categories_loop ::
  "pylib \<Rightarrow> ReportMetrics \<Rightarrow> pystr \<Rightarrow> (MetricCategory \<times> MetricsData) list \<Rightarrow> pystr" where
  "categories_loop lib prev str_msg [] = str_msg"
| "categories_loop lib prev str_msg ((metric_type, metric_data) # rest) =
     categories_loop lib prev
       (metrics_loop lib prev metric_type
          (str_msg @ newline # py ''>*'' @ category_value lib metric_type @ py '':*'')
          (metrics metric_data))
       rest"

definition build_analytics_message :: "pylib \<Rightarrow> ReportMetrics \<Rightarrow> ReportMetrics \<Rightarrow> pystr" where
  "build_analytics_message lib metrics_data prev_period_metrics_data =
     categories_loop lib prev_period_metrics_data [] (data metrics_data)"

section \<open>The aggregator: \<^verbatim>\<open>handle_export_event\<close> and \<^verbatim>\<open>parse_export_data\<close>\<close>

text \<open>
  Modelled from the spec: the classes \<open>ExportInfo\<close>, \<open>ProjectInfo\<close>, \<open>UserActivity\<close> and
  \<open>UserActivityStore\<close> of \<^verbatim>\<open>models\<close> are not among the sources. The spec gives their
  fields; \<open>prompts\<close> and \<open>exports\<close> are appended to, \<open>projects\<close> maps a project id to its
  \<open>ProjectInfo\<close> in first-seen order, and the store maps an identity key to its
  \<open>UserActivity\<close> in first-committed order. As plain objects a \<open>ProjectInfo\<close> is truthy, so
  \<open>projects.get(project_id)\<close> is truthy exactly when the project is present. The field
  name \<open>projetc_id\<close> is the one the source passes to the constructor.
\<close>

record ExportInfo =
  export_layout :: json
  export_type :: json
  export_file_name :: json
  output_duration :: "pystr option"

record ProjectInfo =
  projetc_id :: json
  project_name :: json
  file_info :: "pystr option"
  prompts :: "json list"
  exports :: "ExportInfo list"

record UserActivity =
  email :: json
  projects :: "(json \<times> ProjectInfo) list"

type_synonym UserActivityStore = "(json \<times> UserActivity) list"

definition add_prompt :: "ProjectInfo \<Rightarrow> json \<Rightarrow> ProjectInfo" where
  "add_prompt project prompt = project\<lparr>prompts := prompts project @ [prompt]\<rparr>"

definition add_export :: "ProjectInfo \<Rightarrow> ExportInfo \<Rightarrow> ProjectInfo" where
  "add_export project export_info = project\<lparr>exports := exports project @ [export_info]\<rparr>"

definition add_project :: "UserActivity \<Rightarrow> ProjectInfo \<Rightarrow> UserActivity" where
  "add_project ua project =
     ua\<lparr>projects := AList.update (projetc_id project) project (projects ua)\<rparr>"

text \<open>
  \<open>get_activity\<close> returns the stored instance, or a fresh empty one that is not yet
  stored; \<open>add_activity\<close> commits an instance under its identity key. The spec names
  no case in which they fail.
\<close>

definition get_activity :: "UserActivityStore \<Rightarrow> json \<Rightarrow> UserActivity" where
  "get_activity user_store user_id =
     (case map_of user_store user_id of
        Some ua \<Rightarrow> ua
      | None \<Rightarrow> \<lparr>email = user_id, projects = []\<rparr>)"

definition add_activity :: "UserActivityStore \<Rightarrow> UserActivity \<Rightarrow> UserActivityStore" where
  "add_activity user_store ua = AList.update (email ua) ua user_store"

definition get_all_activities :: "UserActivityStore \<Rightarrow> UserActivity list" where
  "get_all_activities user_store = map snd user_store"

subsection \<open>The file-info summary\<close>

text \<open>One element of the list comprehension: \<open>"<filename> (<formatted size>)"\<close>.\<close>

definition file_entry :: "pylib \<Rightarrow> json \<Rightarrow> error + pystr" where
  "file_entry lib file =
     (case file of
        JObj f \<Rightarrow>
          (case py_int lib (getd f (py ''filesize'') (JInt 0)) of
             Inl e \<Rightarrow> Inl e
           | Inr n \<Rightarrow>
               Inr (py_str lib (get f (py ''filename'')) @ py '' (''
                      @ str_opt (format_bytes lib n) @ py '')''))
      | _ \<Rightarrow> Inl AttributeError)"

fun file_entries :: "pylib \<Rightarrow> json list \<Rightarrow> error + pystr list" where
  "file_entries lib [] = Inr []"
| "file_entries lib (file # files) =
     (case file_entry lib file of
        Inl e \<Rightarrow> Inl e
      | Inr s \<Rightarrow>
          (case file_entries lib files of
             Inl e \<Rightarrow> Inl e
           | Inr ss \<Rightarrow> Inr (s # ss)))"

text \<open>
  The \<open>try\<close> block of \<open>handle_export_event\<close> with its \<open>except\<close> branch.
  \<open>JSONDecodeError\<close> and \<open>TypeError\<close> are caught: the branch leaves the summary \<open>None\<close>
  and prints its message. Any other exception leaves the function. The step yields the
  summary (or the exception that propagates) and whether the message was printed.
\<close>

definition files_info_step ::
  "pylib \<Rightarrow> (pystr \<times> json) list \<Rightarrow> (error + pystr option) \<times> bool" where
  "files_info_step lib event_properties =
     (let raw_files_info = getd event_properties (py ''projectFileInfo'') (JStr (py ''[]''))
      in case (case raw_files_info of JStr s \<Rightarrow> json_loads lib s | v \<Rightarrow> Some v) of
           None \<Rightarrow> (Inr None, True)
         | Some files_info \<Rightarrow>
             (case files_info of
                JArr files \<Rightarrow>
                  if files = [] then (Inr None, False)
                  else (case file_entries lib files of
                          Inl TypeError \<Rightarrow> (Inr None, True)
                        | Inl e \<Rightarrow> (Inl e, False)
                        | Inr entries \<Rightarrow> (Inr (Some (join (py '', '') entries)), False))
              | _ \<Rightarrow> (Inr None, False)))"

text \<open>The value of \<open>project_files_info\<close> after the block, and whether the error was logged.\<close>

definition project_files_info :: "pylib \<Rightarrow> (pystr \<times> json) list \<Rightarrow> error + pystr option" where
  "project_files_info lib event_properties = fst (files_info_step lib event_properties)"


subsection \<open>One event\<close>

text \<open>
  \<open>readable_duration\<close> of the export branch: \<open>float\<close> of a truthy \<open>outputDuration\<close>, then
  the duration formatter.
\<close>

definition readable_duration :: "pylib \<Rightarrow> (pystr \<times> json) list \<Rightarrow> error + pystr option" where
  "readable_duration lib event_properties =
     (let ouput_duration_str = getd event_properties (py ''outputDuration'') JNull
      in if truthy ouput_duration_str then
           (case py_float lib ouput_duration_str of
              Inl e \<Rightarrow> Inl e
            | Inr q \<Rightarrow> Inr (seconds_to_readable_time q))
         else Inr None)"

text \<open>
  The function returns the project it created or updated, or \<open>None\<close>. An existing project
  is updated in place, inside \<open>user_activity\<close>, so the activity is returned as well.
  \<open>event_type in {...}\<close> hashes the event type and \<open>projects.get(project_id)\<close> hashes the
  project id: a list or a mapping there raises \<open>TypeError\<close>.
\<close>

definition handle_export_event ::
  "pylib \<Rightarrow> json \<Rightarrow> UserActivity \<Rightarrow> error + (ProjectInfo option \<times> UserActivity)" where
  "handle_export_event lib event ua =
     (case event of
        JObj ev \<Rightarrow>
          (let event_type = get ev (py ''event_type'') in
           case get ev (py ''event_properties'') of
             JObj event_properties \<Rightarrow>
               (let project_id = get event_properties (py ''projectId'');
                    project_name = get event_properties (py ''projectName'')
                in case project_files_info lib event_properties of
                     Inl e \<Rightarrow> Inl e
                   | Inr files_info \<Rightarrow>
                       if \<not> hashable event_type then Inl TypeError
                       else if event_type = JStr (user_submit_prompt lib)
                               \<or> event_type = JStr (user_click_prompt_suggest lib) then
                         (let prompt = (if event_type = JStr (user_submit_prompt lib)
                                        then get event_properties (py ''prompt'')
                                        else get event_properties (py ''promptSuggest''))
                          in if \<not> hashable project_id then Inl TypeError
                             else
                               case map_of (projects ua) project_id of
                                 Some existing \<Rightarrow>
                                   (let project = add_prompt (existing\<lparr>file_info := files_info\<rparr>) prompt
                                    in Inr (Some project,
                                            ua\<lparr>projects := AList.update project_id project (projects ua)\<rparr>))
                               | None \<Rightarrow>
                                   Inr (Some \<lparr>projetc_id = project_id, project_name = project_name,
                                              file_info = files_info, prompts = [prompt],
                                              exports = []\<rparr>, ua))
                       else if event_type = JStr (file_export_succeeded lib) then
                         (case readable_duration lib event_properties of
                            Inl e \<Rightarrow> Inl e
                          | Inr duration \<Rightarrow>
                              (let export_info =
                                     \<lparr>export_layout = get event_properties (py ''layout''),
                                      export_type = get event_properties (py ''exportType''),
                                      export_file_name = get event_properties (py ''exportFileName''),
                                      output_duration = duration\<rparr>
                               in if \<not> hashable project_id then Inl TypeError
                                  else
                                    case map_of (projects ua) project_id of
                                      Some existing \<Rightarrow>
                                        (let project = add_export (existing\<lparr>file_info := files_info\<rparr>)
                                                         export_info
                                         in Inr (Some project,
                                                 ua\<lparr>projects :=
                                                      AList.update project_id project (projects ua)\<rparr>))
                                    | None \<Rightarrow>
                                        Inr (Some \<lparr>projetc_id = project_id,
                                                   project_name = project_name,
                                                   file_info = files_info, prompts = [],
                                                   exports = [export_info]\<rparr>, ua)))
                       else Inr (None, ua))
           | _ \<Rightarrow> Inl AttributeError)
      | _ \<Rightarrow> Inl AttributeError)"

subsection \<open>The aggregation loop\<close>

text \<open>
  The identity key the loop binds to \<open>user_id\<close>: the record's \<open>user_id\<close> when truthy,
  otherwise the synthesized anonymous label. \<open>index\<close> is the loop's \<open>enumerate\<close> counter.
\<close>

definition user_id_of :: "pylib \<Rightarrow> (pystr \<times> json) list \<Rightarrow> nat \<Rightarrow> json" where
  "user_id_of lib ev index =
     (if truthy (get ev (py ''user_id'')) then get ev (py ''user_id'')
      else JStr (py ''Anonymous (Amplitude ID-''
                  @ py_str lib (getd ev (py ''amplitude_id'') (JInt (int index)))
                  @ py '')''))"

text \<open>The body of the inner loop, for the record \<open>event\<close> with counter \<open>index\<close>.\<close>

definition process_event ::
  "pylib \<Rightarrow> UserActivityStore \<Rightarrow> nat \<times> json \<Rightarrow> error + UserActivityStore" where
  "process_event lib user_store rec =
     (case rec of (index, event) \<Rightarrow>
        (case event of
           JObj ev \<Rightarrow>
             if get ev (py ''data_type'') \<noteq> JStr (py ''event'') then Inr user_store
             else
               (let user_id = user_id_of lib ev index;
                    ua = get_activity user_store user_id
                in case handle_export_event lib event ua of
                     Inl e \<Rightarrow> Inl e
                   | Inr (project, ua') \<Rightarrow>
                       (case project of
                          Some p \<Rightarrow> Inr (add_activity user_store (add_project ua' p))
                        | None \<Rightarrow> Inr user_store))
         | _ \<Rightarrow> Inl AttributeError))"

fun events_loop ::
  "pylib \<Rightarrow> UserActivityStore \<Rightarrow> (nat \<times> json) list \<Rightarrow> error + UserActivityStore" where
  "events_loop lib user_store [] = Inr user_store"
| "events_loop lib user_store (rec # rest) =
     (case process_event lib user_store rec of
        Inl e \<Rightarrow> Inl e
      | Inr user_store' \<Rightarrow> events_loop lib user_store' rest)"

text \<open>
  The outer loop over the files. Each file holds the list that \<open>json.load\<close> returns, and
  \<open>enumerate(data, start=1)\<close> over it starts again at 1 for each of them.
\<close>

fun files_loop ::
  "pylib \<Rightarrow> UserActivityStore \<Rightarrow> json list list \<Rightarrow> error + UserActivityStore" where
  "files_loop lib user_store [] = Inr user_store"
| "files_loop lib user_store (file_data # rest) =
     (case events_loop lib user_store (List.enumerate 1 file_data) of
        Inl e \<Rightarrow> Inl e
      | Inr user_store' \<Rightarrow> files_loop lib user_store' rest)"

definition parse_export_data :: "pylib \<Rightarrow> json list list \<Rightarrow> error + UserActivity list" where
  "parse_export_data lib extracted_files =
     (case files_loop lib [] extracted_files of
        Inl e \<Rightarrow> Inl e
      | Inr user_store \<Rightarrow> Inr (get_all_activities user_store))"

section \<open>A concrete instance of the parameters\<close>

text \<open>
  Evaluating the model on a concrete input needs concrete parameters. This instance
  decodes the JSON texts \<open>{}\<close> and \<open>[]\<close> only, reads a number from a text of decimal
  digits only, and names each event type by the name of its enum member.
\<close>

fun digits_value :: "nat \<Rightarrow> pystr \<Rightarrow> nat option" where
  "digits_value acc [] = Some acc"
| "digits_value acc (c # cs) =
     (if 48 \<le> c \<and> c \<le> 57 then digits_value (10 * acc + (c - 48)) cs else None)"

definition example_lib :: pylib where
  "example_lib =
     \<lparr>decode_json = (\<lambda>s. if s = py ''{}'' then Some (JObj []) else None),
      float_of_str = (\<lambda>s. if s = [] then None else map_option of_nat (digits_value 0 s)),
      int_of_str = (\<lambda>s. if s = [] then None else map_option int (digits_value 0 s)),
      str_float = (\<lambda>q. py ''?''),
      str_container = (\<lambda>v. py ''?''),
      fmt_1f = (\<lambda>q. py ''?''),
      fmt_2f = (\<lambda>q. py ''?''),
      user_submit_prompt = py ''user_submit_prompt'',
      user_click_prompt_suggest = py ''user_click_prompt_suggest'',
      file_export_succeeded = py ''file_export_succeeded'',
      category_value = (\<lambda>c. py ''category''),
      metric_name_str = (\<lambda>n. py ''metric'')\<rparr>"

text \<open>
  Event records of the export: the fields of a record with a user id, an event type and
  its properties, and the record itself. The properties of a prompt on project p1 may
  carry a \<open>projectFileInfo\<close>; \<open>one_file\<close> is such a value, already decoded, naming one file.
\<close>

definition example_fields :: "pystr \<Rightarrow> pystr \<Rightarrow> (pystr \<times> json) list \<Rightarrow> (pystr \<times> json) list" where
  "example_fields uid event_type props =
     [(py ''data_type'', JStr (py ''event'')),
      (py ''user_id'', JStr uid),
      (py ''event_type'', JStr event_type),
      (py ''event_properties'', JObj props)]"

definition example_event :: "pystr \<Rightarrow> pystr \<Rightarrow> (pystr \<times> json) list \<Rightarrow> json" where
  "example_event uid event_type props = JObj (example_fields uid event_type props)"

definition one_file :: "pystr \<Rightarrow> int \<Rightarrow> json" where
  "one_file name n = JArr [JObj [(py ''filename'', JStr name), (py ''filesize'', JInt n)]]"

definition prompt_props :: "json option \<Rightarrow> (pystr \<times> json) list" where
  "prompt_props files =
     [(py ''projectId'', JStr (py ''p1'')), (py ''prompt'', JStr (py ''cut''))]
       @ (case files of None \<Rightarrow> [] | Some v \<Rightarrow> [(py ''projectFileInfo'', v)])"

section \<open>Vocabulary of the properties\<close>

text \<open>
  The rendering that claim C7 describes, in the claim's words: the components are computed
  by floor division and remainder, each is rounded, a segment whose rounded value is zero
  is left out, except that the seconds segment stays when hours and minutes are both left
  out.
\<close>

definition claimed_readable_time :: "rat \<Rightarrow> pystr option" where
  "claimed_readable_time seconds0 =
     (if seconds0 = 0 then None
      else
        let minutes0 = py_floordiv seconds0 60;
            H = py_round (py_floordiv minutes0 60);
            M = py_round (py_mod minutes0 60);
            S = py_round (py_mod seconds0 60);
            hs = (if H = 0 then [] else str_int H @ py ''h'');
            ms = (if M = 0 then [] else str_int M @ py ''m'');
            ss = (if S = 0 \<and> \<not> (H = 0 \<and> M = 0) then [] else str_int S @ py ''s'')
        in Some (hs @ ms @ ss))"

text \<open>
  The two kinds of line that \<open>build_analytics_message\<close> emits for a metric, as the
  f-strings of the source write them: the value line, whose indentation is doubled for
  the four captioned MP4 export metrics, and the line for a metric without data (the
  letter f after the quote mark is in the source).
\<close>

definition value_line :: "pylib \<Rightarrow> MetricsName \<Rightarrow> pystr \<Rightarrow> pystr \<Rightarrow> pystr" where
  "value_line lib metric_name shown cmp =
     newline # py ''>''
       @ (if metric_name \<in> set [export_mp4_landscape_with_captions,
                                export_mp4_landscape_without_captions,
                                export_mp4_vertical_with_captions,
                                export_mp4_vertical_without_captions]
          then py ''                    '' else py ''          '')
       @ py ''- *'' @ metric_name_str lib metric_name @ py '':* '' @ shown @ py '' '' @ cmp"

definition no_data_line :: "pylib \<Rightarrow> MetricsName \<Rightarrow> pystr" where
  "no_data_line lib metric_name =
     newline # py ''>f          - *'' @ metric_name_str lib metric_name @ py '':* No data found''"

text \<open>
  The vocabulary of the claims. A record is an event when its \<open>data_type\<close> is the text
  event; it is recognized when its \<open>event_type\<close> is one of the three the source handles.
  \<open>project_id_of\<close> and \<open>files_info_of\<close> are the project id and the file-info summary the
  source computes for a record; \<open>indexed_records\<close> lists the records of all files, each
  with the counter \<open>enumerate\<close> gives it; a record touches a user's project when it is a
  recognized event with that identity key and that project id.
\<close>

definition is_event :: "(pystr \<times> json) list \<Rightarrow> bool" where
  "is_event ev = (get ev (py ''data_type'') = JStr (py ''event''))"

definition recognized :: "pylib \<Rightarrow> (pystr \<times> json) list \<Rightarrow> bool" where
  "recognized lib ev =
     (get ev (py ''event_type'') = JStr (user_submit_prompt lib)
      \<or> get ev (py ''event_type'') = JStr (user_click_prompt_suggest lib)
      \<or> get ev (py ''event_type'') = JStr (file_export_succeeded lib))"

definition project_id_of :: "(pystr \<times> json) list \<Rightarrow> json" where
  "project_id_of ev =
     (case get ev (py ''event_properties'') of
        JObj event_properties \<Rightarrow> get event_properties (py ''projectId'')
      | _ \<Rightarrow> JNull)"

definition files_info_of :: "pylib \<Rightarrow> (pystr \<times> json) list \<Rightarrow> error + pystr option" where
  "files_info_of lib ev =
     (case get ev (py ''event_properties'') of
        JObj event_properties \<Rightarrow> project_files_info lib event_properties
      | _ \<Rightarrow> Inl AttributeError)"

definition indexed_records :: "json list list \<Rightarrow> (nat \<times> json) list" where
  "indexed_records files = concat (map (List.enumerate 1) files)"

definition touches :: "pylib \<Rightarrow> json \<Rightarrow> json \<Rightarrow> nat \<times> json \<Rightarrow> bool" where
  "touches lib k pid r =
     (case r of
        (i, JObj ev) \<Rightarrow>
          is_event ev \<and> recognized lib ev \<and> user_id_of lib ev i = k \<and> project_id_of ev = pid
      | _ \<Rightarrow> False)"

text \<open>
  Invariants of the store: every activity is stored under its own identity key, and
  every project under its own id.
\<close>

definition proj_ok :: "UserActivity \<Rightarrow> bool" where
  "proj_ok ua = (\<forall>(q, pr) \<in> set (projects ua). projetc_id pr = q)"

definition store_ok :: "UserActivityStore \<Rightarrow> bool" where
  "store_ok st = (\<forall>(k, ua) \<in> set st. email ua = k \<and> proj_ok ua)"

text \<open>
  The file-info summary stored for a project of a user, if the store has that user and
  the user has that project.
\<close>

definition file_info_at :: "UserActivityStore \<Rightarrow> json \<Rightarrow> json \<Rightarrow> pystr option option" where
  "file_info_at st k pid =
     (case map_of st k of
        None \<Rightarrow> None
      | Some ua \<Rightarrow> map_option file_info (map_of (projects ua) pid))"



section \<open>The chunking loop of \<^verbatim>\<open>handle_send_message_by_thread\<close>\<close>

definition SLACK_MESSAGE_LIMIT :: nat where
  "SLACK_MESSAGE_LIMIT = 3000"

text \<open>The slice \<open>s[i:j]\<close> for \<open>0 \<le> i\<close> and \<open>0 \<le> j\<close>.\<close>

definition slice :: "pystr \<Rightarrow> nat \<Rightarrow> nat \<Rightarrow> pystr" where
  "slice s i j = take (j - i) (drop i s)"

text \<open>
  \<open>s.rfind(c, i, e)\<close>: the highest index in \<open>[i, e)\<close> (clipped to the string) that holds
  \<open>c\<close>, or \<open>-1\<close>.
\<close>

fun rfind :: "pystr \<Rightarrow> codepoint \<Rightarrow> nat \<Rightarrow> nat \<Rightarrow> int" where
  "rfind s c i 0 = - 1"
| "rfind s c i (Suc e) =
     (if Suc e \<le> i then - 1
      else if Suc e \<le> length s \<and> s ! e = c then int e
      else rfind s c i e)"

text \<open>The boundary \<open>end_index\<close> that one iteration of the loop computes from position \<open>i\<close>.\<close>

definition end_index :: "pystr \<Rightarrow> nat \<Rightarrow> nat" where
  "end_index message_str i =
     (let e = min (i + SLACK_MESSAGE_LIMIT) (length message_str)
      in if e < length message_str \<and> newline \<in> set (slice message_str i e)
         then nat (rfind message_str newline i e + 1)
         else e)"

lemma rfind_range:
  "rfind s c i e = - 1 \<or> (int i \<le> rfind s c i e \<and> rfind s c i e < int e)"
  by (induction e) auto

lemma slice_nth:
  "k < j - i \<Longrightarrow> i + k < length s \<Longrightarrow> slice s i j ! k = s ! (i + k)"
  by (simp add: slice_def)

lemma length_slice: "length (slice s i j) = min (j - i) (length s - i)"
  by (simp add: slice_def)

lemma in_slice_iff:
  "c \<in> set (slice s i j) \<longleftrightarrow> (\<exists>k. i \<le> k \<and> k < j \<and> k < length s \<and> s ! k = c)"
proof
  assume "c \<in> set (slice s i j)"
  then obtain n where n: "n < length (slice s i j)" "slice s i j ! n = c"
    by (auto simp: in_set_conv_nth)
  then have "n < j - i" "i + n < length s" by (auto simp: length_slice)
  then show "\<exists>k. i \<le> k \<and> k < j \<and> k < length s \<and> s ! k = c"
    using n slice_nth [of n j i s] by (intro exI [of _ "i + n"]) auto
next
  assume "\<exists>k. i \<le> k \<and> k < j \<and> k < length s \<and> s ! k = c"
  then obtain k where k: "i \<le> k" "k < j" "k < length s" "s ! k = c" by blast
  then have "k - i < length (slice s i j)" by (auto simp: length_slice)
  moreover have "slice s i j ! (k - i) = c"
    using k slice_nth [of "k - i" j i s] by auto
  ultimately show "c \<in> set (slice s i j)"
    by (auto simp: in_set_conv_nth)
qed

lemma rfind_none_iff:
  "rfind s c i e = - 1 \<longleftrightarrow> \<not> (\<exists>k. i \<le> k \<and> k < e \<and> k < length s \<and> s ! k = c)"
proof (induction e)
  case 0
  then show ?case by simp
next
  case (Suc e)
  show ?case
  proof (cases "Suc e \<le> i")
    case True
    then show ?thesis by auto
  next
    case False
    show ?thesis
    proof (cases "Suc e \<le> length s \<and> s ! e = c")
      case True
      then have "\<exists>k. i \<le> k \<and> k < Suc e \<and> k < length s \<and> s ! k = c"
        using False by (intro exI [of _ e]) auto
      then show ?thesis using True False by simp
    next
      case no: False
      have "(\<exists>k. i \<le> k \<and> k < Suc e \<and> k < length s \<and> s ! k = c)
            \<longleftrightarrow> (\<exists>k. i \<le> k \<and> k < e \<and> k < length s \<and> s ! k = c)"
        using no by (metis Suc_leI less_Suc_eq)
      moreover have "rfind s c i (Suc e) = rfind s c i e"
        using False no by auto
      ultimately show ?thesis using Suc.IH by presburger
    qed
  qed
qed

lemma rfind_in_slice:
  "newline \<in> set (slice s i e) \<Longrightarrow> rfind s newline i e \<noteq> - 1"
  by (simp add: rfind_none_iff in_slice_iff)

lemma end_index_gt:
  assumes "i < length s"
  shows "i < end_index s i"
proof -
  let ?e = "min (i + SLACK_MESSAGE_LIMIT) (length s)"
  have e: "i < ?e" using assms by (simp add: SLACK_MESSAGE_LIMIT_def)
  show ?thesis
  proof (cases "?e < length s \<and> newline \<in> set (slice s i ?e)")
    case True
    then have "rfind s newline i ?e \<noteq> - 1"
      by (simp add: rfind_in_slice)
    then have "int i < rfind s newline i ?e + 1"
      using rfind_range [of s newline i ?e] by linarith
    then show ?thesis using True by (simp add: end_index_def Let_def)
  next
    case False
    then show ?thesis using e by (auto simp: end_index_def Let_def)
  qed
qed

text \<open>
  The loop itself. Its effect is the sequence of messages handed to the chat client, in
  the order they are sent; the loop variable \<open>i\<close> is the argument of the recursion.
\<close>

function send_loop :: "pystr \<Rightarrow> nat \<Rightarrow> pystr list" where
  "send_loop message_str i =
     (if i < length message_str then
        let e = end_index message_str i;
            message = slice message_str i e
        in message # send_loop message_str e
      else [])"
  by pat_completeness auto
termination
proof (relation "measure (\<lambda>(s, i). length s - i)")
  show "wf (measure (\<lambda>(s, i). length s - i))" by simp
next
  fix message_str :: pystr and i e :: nat
  assume "i < length message_str" "e = end_index message_str i"
  then show "((message_str, e), (message_str, i)) \<in> measure (\<lambda>(s, i). length s - i)"
    using end_index_gt [of i message_str] by simp
qed

declare send_loop.simps [simp del]

definition sent_messages :: "pystr \<Rightarrow> pystr list" where
  "sent_messages message_str = send_loop message_str 0"

section \<open>Properties of the chunking loop\<close>

lemma rfind_last:
  "rfind s c i e = int j \<Longrightarrow>
     i \<le> j \<and> j < e \<and> j < length s \<and> s ! j = c \<and> (\<forall>k. j < k \<and> k < e \<and> k < length s \<longrightarrow> s ! k \<noteq> c)"
proof (induction e)
  case 0
  then show ?case by simp
next
  case (Suc e)
  show ?case
  proof (cases "Suc e \<le> i")
    case True
    then show ?thesis using Suc.prems by simp
  next
    case False
    show ?thesis
    proof (cases "Suc e \<le> length s \<and> s ! e = c")
      case True
      then have "j = e" using False Suc.prems by simp
      then show ?thesis using True False by auto
    next
      case no: False
      then have "rfind s c i e = int j" using False Suc.prems by auto
      then have ih: "i \<le> j \<and> j < e \<and> j < length s \<and> s ! j = c \<and>
          (\<forall>k. j < k \<and> k < e \<and> k < length s \<longrightarrow> s ! k \<noteq> c)"
        by (rule Suc.IH)
      have "s ! k \<noteq> c" if "j < k" "k < Suc e" "k < length s" for k
      proof (cases "k = e")
        case True
        then show ?thesis using no that by auto
      next
        case False
        then show ?thesis using ih that by auto
      qed
      then show ?thesis using ih by auto
    qed
  qed
qed

lemma end_index_le: "i < length s \<Longrightarrow> end_index s i \<le> length s"
  using rfind_range [of s newline i "min (i + SLACK_MESSAGE_LIMIT) (length s)"]
  by (auto simp: end_index_def Let_def)

lemma end_index_window: "end_index s i \<le> i + SLACK_MESSAGE_LIMIT"
  using rfind_range [of s newline i "min (i + SLACK_MESSAGE_LIMIT) (length s)"]
  by (auto simp: end_index_def Let_def)

lemma slice_append_drop:
  "i \<le> e \<Longrightarrow> slice s i e @ drop e s = drop i s"
proof -
  assume "i \<le> e"
  then have "drop e s = drop (e - i) (drop i s)" by simp
  then show ?thesis by (simp add: slice_def del: drop_drop)
qed

lemma concat_send_loop: "concat (send_loop s i) = drop i s"
proof (induction s i rule: send_loop.induct)
  case (1 s i)
  show ?case
  proof (cases "i < length s")
    case True
    then have "concat (send_loop s i) = slice s i (end_index s i) @ drop (end_index s i) s"
      using 1 by (simp add: send_loop.simps [of s i] Let_def)
    then show ?thesis
      using end_index_gt [OF True] slice_append_drop [of i "end_index s i" s] by simp
  next
    case False
    then show ?thesis by (simp add: send_loop.simps [of s i])
  qed
qed

lemma send_loop_lengths: "c \<in> set (send_loop s i) \<Longrightarrow> length c \<le> SLACK_MESSAGE_LIMIT"
proof (induction s i rule: send_loop.induct)
  case (1 s i)
  show ?case
  proof (cases "i < length s")
    case True
    then have "c = slice s i (end_index s i) \<or> c \<in> set (send_loop s (end_index s i))"
      using "1.prems" by (simp add: send_loop.simps [of s i] Let_def)
    then show ?thesis
    proof
      assume "c = slice s i (end_index s i)"
      then show ?thesis using end_index_window [of s i] by (simp add: length_slice)
    next
      assume "c \<in> set (send_loop s (end_index s i))"
      then show ?thesis using "1.IH" True by simp
    qed
  next
    case False
    then show ?thesis using "1.prems" by (simp add: send_loop.simps [of s i])
  qed
qed

lemma send_loop_nonempty: "c \<in> set (send_loop s i) \<Longrightarrow> c \<noteq> []"
proof (induction s i rule: send_loop.induct)
  case (1 s i)
  show ?case
  proof (cases "i < length s")
    case True
    then have "c = slice s i (end_index s i) \<or> c \<in> set (send_loop s (end_index s i))"
      using "1.prems" by (simp add: send_loop.simps [of s i] Let_def)
    then show ?thesis
    proof
      assume "c = slice s i (end_index s i)"
      then have "length c = min (end_index s i - i) (length s - i)" by (simp add: length_slice)
      then show ?thesis using end_index_gt [OF True] True by auto
    next
      assume "c \<in> set (send_loop s (end_index s i))"
      then show ?thesis using "1.IH" True by simp
    qed
  next
    case False
    then show ?thesis using "1.prems" by (simp add: send_loop.simps [of s i])
  qed
qed

lemma length_send_loop: "length (send_loop s i) \<le> length s - i"
proof (induction s i rule: send_loop.induct)
  case (1 s i)
  show ?case
  proof (cases "i < length s")
    case True
    then have "length (send_loop s i) = Suc (length (send_loop s (end_index s i)))"
      by (simp add: send_loop.simps [of s i] Let_def)
    moreover have "length (send_loop s (end_index s i)) \<le> length s - end_index s i"
      using "1.IH" True by simp
    ultimately show ?thesis using end_index_gt [OF True] end_index_le [OF True] by linarith
  next
    case False
    then show ?thesis by (simp add: send_loop.simps [of s i])
  qed
qed

lemma end_index_last_window:
  "i < length s \<Longrightarrow> length s \<le> i + SLACK_MESSAGE_LIMIT \<Longrightarrow> end_index s i = length s"
  by (simp add: end_index_def Let_def)

lemma end_index_no_newline:
  "i + SLACK_MESSAGE_LIMIT < length s \<Longrightarrow>
   newline \<notin> set (slice s i (i + SLACK_MESSAGE_LIMIT)) \<Longrightarrow>
   end_index s i = i + SLACK_MESSAGE_LIMIT"
  by (simp add: end_index_def Let_def)

lemma end_index_after_newline:
  assumes "i + SLACK_MESSAGE_LIMIT < length s"
    and "newline \<in> set (slice s i (i + SLACK_MESSAGE_LIMIT))"
  shows "\<exists>j. end_index s i = Suc j \<and> i \<le> j \<and> j < i + SLACK_MESSAGE_LIMIT \<and> s ! j = newline
           \<and> (\<forall>k. j < k \<and> k < i + SLACK_MESSAGE_LIMIT \<longrightarrow> s ! k \<noteq> newline)"
proof -
  let ?e = "i + SLACK_MESSAGE_LIMIT"
  have ne: "rfind s newline i ?e \<noteq> - 1" using assms(2) by (rule rfind_in_slice)
  then have "0 \<le> rfind s newline i ?e" using rfind_range [of s newline i ?e] by linarith
  then obtain j where j: "rfind s newline i ?e = int j"
    using nonneg_int_cases by blast
  have e: "end_index s i = Suc j"
    using assms j by (simp add: end_index_def Let_def min_def)
  show ?thesis using rfind_last [OF j] e assms(1) by auto
qed

lemma send_loop_single:
  "s \<noteq> [] \<Longrightarrow> length s \<le> SLACK_MESSAGE_LIMIT \<Longrightarrow> send_loop s 0 = [s]"
proof -
  assume a: "s \<noteq> []" "length s \<le> SLACK_MESSAGE_LIMIT"
  then have e: "end_index s 0 = length s" by (simp add: end_index_last_window)
  have "send_loop s (length s) = []" by (simp add: send_loop.simps [of s "length s"])
  then show ?thesis using a e by (simp add: send_loop.simps [of s 0] slice_def)
qed

lemma send_loop_done: "length s \<le> i \<Longrightarrow> send_loop s i = []"
  by (simp add: send_loop.simps [of s i])

lemma send_loop_step:
  "i < length s \<Longrightarrow> send_loop s i = slice s i (end_index s i) # send_loop s (end_index s i)"
  by (simp add: send_loop.simps [of s i] Let_def)

lemma no_newline_slice: "newline \<notin> set s \<Longrightarrow> newline \<notin> set (slice s i j)"
  by (auto simp: slice_def dest: in_set_takeD in_set_dropD)

lemma send_loop_7000:
  assumes len: "length s = 7000" and nl: "newline \<notin> set s"
  shows "map length (send_loop s 0) = [3000, 3000, 1000]"
proof -
  have e0: "end_index s 0 = 3000"
    using end_index_no_newline [of 0 s] len no_newline_slice [OF nl]
    by (simp add: SLACK_MESSAGE_LIMIT_def)
  have e1: "end_index s 3000 = 6000"
    using end_index_no_newline [of 3000 s] len no_newline_slice [OF nl]
    by (simp add: SLACK_MESSAGE_LIMIT_def)
  have e2: "end_index s 6000 = 7000"
    using end_index_last_window [of 6000 s] len by (simp add: SLACK_MESSAGE_LIMIT_def)
  have s0: "send_loop s 0 = slice s 0 3000 # send_loop s 3000"
    using send_loop_step [of 0 s] len e0 by simp
  have s1: "send_loop s 3000 = slice s 3000 6000 # send_loop s 6000"
    using send_loop_step [of 3000 s] len e1 by simp
  have s2: "send_loop s 6000 = slice s 6000 7000 # send_loop s 7000"
    using send_loop_step [of 6000 s] len e2 by simp
  have s3: "send_loop s 7000 = []"
    using send_loop_done [of s 7000] len by simp
  show ?thesis
    using len by (simp add: s0 s1 s2 s3 length_slice)
qed

lemma boundary_inside:
  assumes "i < length s" "end_index s i < length s"
  shows "i + SLACK_MESSAGE_LIMIT < length s"
proof (rule ccontr)
  assume "\<not> i + SLACK_MESSAGE_LIMIT < length s"
  then have "length s \<le> i + SLACK_MESSAGE_LIMIT" by simp
  then have "end_index s i = length s" using assms(1) by (rule end_index_last_window [rotated])
  then show False using assms(2) by simp
qed

lemma window_rule:
  assumes "i + SLACK_MESSAGE_LIMIT < length s"
  shows "if newline \<in> set (slice s i (i + SLACK_MESSAGE_LIMIT)) then
           (\<exists>j. end_index s i = Suc j \<and> i \<le> j \<and> j < i + SLACK_MESSAGE_LIMIT
              \<and> s ! j = newline
              \<and> (\<forall>k. j < k \<and> k < i + SLACK_MESSAGE_LIMIT \<longrightarrow> s ! k \<noteq> newline))
         else end_index s i = i + SLACK_MESSAGE_LIMIT"
  using assms end_index_no_newline [of i s] end_index_after_newline [of i s]
  by (simp only: split: if_split) blast

lemma terminated_window_rule:
  assumes ne: "s \<noteq> []" and nl: "last s = newline" and i: "i < length s"
  shows "if newline \<in> set (slice s i (min (i + SLACK_MESSAGE_LIMIT) (length s))) then
           (\<exists>j. end_index s i = Suc j \<and> i \<le> j \<and> j < min (i + SLACK_MESSAGE_LIMIT) (length s)
              \<and> s ! j = newline
              \<and> (\<forall>k. j < k \<and> k < min (i + SLACK_MESSAGE_LIMIT) (length s) \<longrightarrow> s ! k \<noteq> newline))
         else end_index s i = i + SLACK_MESSAGE_LIMIT"
proof (cases "i + SLACK_MESSAGE_LIMIT < length s")
  case True
  then have "min (i + SLACK_MESSAGE_LIMIT) (length s) = i + SLACK_MESSAGE_LIMIT" by simp
  then show ?thesis using window_rule [OF True] by simp
next
  case False
  then have le: "length s \<le> i + SLACK_MESSAGE_LIMIT" by simp
  then have m: "min (i + SLACK_MESSAGE_LIMIT) (length s) = length s" by simp
  have e: "end_index s i = length s" using i le by (rule end_index_last_window)
  let ?j = "length s - 1"
  have j: "s ! ?j = newline" using ne nl by (simp add: last_conv_nth)
  have r: "i \<le> ?j" "?j < length s" "Suc ?j = length s" using i by auto
  have mem: "newline \<in> set (slice s i (length s))"
    unfolding in_slice_iff using j r by blast
  have "\<exists>j. end_index s i = Suc j \<and> i \<le> j \<and> j < length s \<and> s ! j = newline
           \<and> (\<forall>k. j < k \<and> k < length s \<longrightarrow> s ! k \<noteq> newline)"
    using e j r by (intro exI [of _ ?j]) auto
  then show ?thesis using mem unfolding m by simp
qed

text \<open>
  C4. For every message, the chunks sent, concatenated in order, give the message back,
  and every chunk is non-empty and no longer than the limit. Each iteration, from a
  position \<open>i\<close> inside the message, sends \<open>message_str[i:end_index]\<close> and goes on from
  \<open>end_index\<close>. A boundary between two chunks (an \<open>end_index\<close> before the end of the message)
  falls immediately after the last newline of the window \<open>[i, i + limit)\<close> whenever the
  window contains a newline, and exactly at \<open>i + limit\<close> otherwise. On a message that ends
  in a newline, as every message the function builds does, the same rule gives the end of
  every chunk, the last included. A message of 7000 characters without a newline goes out
  in three chunks of 3000, 3000 and 1000 characters, the limit being 3000.
\<close>

theorem chunking_reassembles:
  "concat (sent_messages s) = s
   \<and> (\<forall>c \<in> set (sent_messages s). c \<noteq> [] \<and> length c \<le> SLACK_MESSAGE_LIMIT)
   \<and> (\<forall>i < length s.
         send_loop s i = slice s i (end_index s i) # send_loop s (end_index s i))
   \<and> (\<forall>i < length s. end_index s i < length s \<longrightarrow>
         (if newline \<in> set (slice s i (i + SLACK_MESSAGE_LIMIT)) then
            (\<exists>j. end_index s i = Suc j \<and> i \<le> j \<and> j < i + SLACK_MESSAGE_LIMIT
               \<and> s ! j = newline
               \<and> (\<forall>k. j < k \<and> k < i + SLACK_MESSAGE_LIMIT \<longrightarrow> s ! k \<noteq> newline))
          else end_index s i = i + SLACK_MESSAGE_LIMIT))
   \<and> (s \<noteq> [] \<and> last s = newline \<longrightarrow>
        (\<forall>i < length s.
           if newline \<in> set (slice s i (min (i + SLACK_MESSAGE_LIMIT) (length s))) then
             (\<exists>j. end_index s i = Suc j \<and> i \<le> j
                \<and> j < min (i + SLACK_MESSAGE_LIMIT) (length s) \<and> s ! j = newline
                \<and> (\<forall>k. j < k \<and> k < min (i + SLACK_MESSAGE_LIMIT) (length s)
                       \<longrightarrow> s ! k \<noteq> newline))
           else end_index s i = i + SLACK_MESSAGE_LIMIT))
   \<and> (length s = 7000 \<and> newline \<notin> set s \<longrightarrow>
        SLACK_MESSAGE_LIMIT = 3000 \<and> map length (sent_messages s) = [3000, 3000, 1000])"
proof (intro conjI ballI allI impI)
  show "concat (sent_messages s) = s"
    by (simp add: sent_messages_def concat_send_loop)
next
  fix c assume "c \<in> set (sent_messages s)"
  then show "c \<noteq> []" by (simp add: sent_messages_def send_loop_nonempty)
next
  fix c assume "c \<in> set (sent_messages s)"
  then show "length c \<le> SLACK_MESSAGE_LIMIT" by (simp add: sent_messages_def send_loop_lengths)
next
  fix i assume "i < length s"
  then show "send_loop s i = slice s i (end_index s i) # send_loop s (end_index s i)"
    by (rule send_loop_step)
next
  fix i assume "i < length s" "end_index s i < length s"
  then have "i + SLACK_MESSAGE_LIMIT < length s" by (rule boundary_inside)
  then show "if newline \<in> set (slice s i (i + SLACK_MESSAGE_LIMIT)) then
            (\<exists>j. end_index s i = Suc j \<and> i \<le> j \<and> j < i + SLACK_MESSAGE_LIMIT
               \<and> s ! j = newline
               \<and> (\<forall>k. j < k \<and> k < i + SLACK_MESSAGE_LIMIT \<longrightarrow> s ! k \<noteq> newline))
          else end_index s i = i + SLACK_MESSAGE_LIMIT"
    by (rule window_rule)
next
  fix i assume "s \<noteq> [] \<and> last s = newline" "i < length s"
  then show "if newline \<in> set (slice s i (min (i + SLACK_MESSAGE_LIMIT) (length s))) then
             (\<exists>j. end_index s i = Suc j \<and> i \<le> j
                \<and> j < min (i + SLACK_MESSAGE_LIMIT) (length s) \<and> s ! j = newline
                \<and> (\<forall>k. j < k \<and> k < min (i + SLACK_MESSAGE_LIMIT) (length s)
                       \<longrightarrow> s ! k \<noteq> newline))
           else end_index s i = i + SLACK_MESSAGE_LIMIT"
    using terminated_window_rule [of s i] by blast
next
  assume "length s = 7000 \<and> newline \<notin> set s"
  then show "SLACK_MESSAGE_LIMIT = 3000" by (simp add: SLACK_MESSAGE_LIMIT_def)
next
  assume "length s = 7000 \<and> newline \<notin> set s"
  then show "map length (sent_messages s) = [3000, 3000, 1000]"
    by (simp add: sent_messages_def send_loop_7000)
qed

theorem chunking_reassembles_witness:
  "concat (sent_messages (replicate 7000 97)) = replicate 7000 97
   \<and> map length (sent_messages (replicate 7000 97)) = [3000, 3000, 1000]"
  using chunking_reassembles [of "replicate 7000 97"] by (simp add: newline_def)

text \<open>
  C5 (as amended). The loop terminates (\<open>send_loop\<close> is a total function whose recursion
  is justified by the measure \<open>len(message_str) - i\<close>): in every iteration the boundary
  \<open>end_index\<close> is strictly greater than \<open>i\<close> and at most the length of the message, so at
  most \<open>len(message_str)\<close> chunks are sent. A non-empty message no longer than the limit is
  sent as exactly one chunk, the message itself; the empty message is sent as no chunk.
\<close>

theorem chunking_terminates:
  "(\<forall>i < length s. i < end_index s i \<and> end_index s i \<le> length s)
   \<and> length (sent_messages s) \<le> length s
   \<and> (s \<noteq> [] \<and> length s \<le> SLACK_MESSAGE_LIMIT \<longrightarrow> sent_messages s = [s])
   \<and> (s = [] \<longrightarrow> sent_messages s = [])"
  using length_send_loop [of s 0]
  by (auto simp: sent_messages_def end_index_gt end_index_le send_loop_single send_loop_done)

theorem chunking_terminates_witness:
  "sent_messages [97, 10, 98] = [[97, 10, 98]] \<and> length (sent_messages [97, 10, 98]) \<le> 3"
  using chunking_terminates [of "[97, 10, 98]"] by (simp add: SLACK_MESSAGE_LIMIT_def)

text \<open>
  C5 as stated fails on the empty message: its length is at most the limit, and the loop
  body never runs, so there is no chunk rather than exactly one.
\<close>

theorem empty_message_counterexample:
  "length ([] :: pystr) \<le> SLACK_MESSAGE_LIMIT \<and> length (sent_messages []) \<noteq> 1"
  by (simp add: sent_messages_def send_loop.simps [of "[]" 0])

section \<open>Properties of the formatters\<close>

subsection \<open>\<^verbatim>\<open>format_percentage_change\<close>\<close>

text \<open>
  C6. The claim expects the fixed up-100% marker for a current value above zero and a prior
  value of exactly zero. The source tests \<open>not prev_period_value\<close> first, and zero is falsy:
  for the inputs (5, 0), and for any current value with the prior value 0 or 0.0, the
  function returns \<open>None\<close>, so its branch for a zero prior value is never reached.
\<close>

theorem percentage_change_zero_prior:
  "format_percentage_change lib (Some (PyInt 5)) (Some (PyInt 0)) = None
   \<and> format_percentage_change lib d (Some (PyInt 0)) = None
   \<and> format_percentage_change lib d (Some (PyFloat 0)) = None"
  by (simp add: format_percentage_change_def)

theorem percentage_change_zero_prior_witness:
  "format_percentage_change example_lib (Some (PyInt 5)) (Some (PyInt 0)) = None"
  using percentage_change_zero_prior [of example_lib None] by simp

subsection \<open>\<^verbatim>\<open>seconds_to_readable_time\<close>\<close>

lemma py_round_of_int: "py_round (of_int k) = k"
  by (simp add: py_round_def)

lemma py_floordiv_of_int: "py_floordiv (of_int a) 60 = of_int (a div 60)"
proof -
  have "\<lfloor>(of_int a :: rat) / of_int 60\<rfloor> = a div 60" by (rule floor_divide_of_int_eq)
  then show ?thesis by (simp add: py_floordiv_def)
qed

lemma py_mod_of_int: "py_mod (of_int a) 60 = of_int (a mod 60)"
proof -
  have "\<lfloor>(of_int a :: rat) / of_int 60\<rfloor> = a div 60" by (rule floor_divide_of_int_eq)
  then have "py_mod (of_int a) 60 = of_int a - 60 * of_int (a div 60)"
    by (simp add: py_mod_def)
  also have "\<dots> = of_int (a - 60 * (a div 60))" by simp
  also have "a - 60 * (a div 60) = a mod 60" by (simp add: minus_mult_div_eq_mod)
  finally show ?thesis .
qed

lemma py_mod_range: "0 \<le> py_mod q 60 \<and> py_mod q 60 < 60"
proof -
  have "of_int \<lfloor>q / 60\<rfloor> \<le> q / 60" "q / 60 < of_int \<lfloor>q / 60\<rfloor> + 1"
    by linarith+
  then show ?thesis by (simp add: py_mod_def field_simps)
qed

lemma py_nonempty: "(py (c # cs) = []) = False"
  by (simp add: py_def)

lemma readable_time_agrees:
  assumes "0 \<le> q" and "py_mod q 60 = 0 \<or> py_round (py_mod q 60) \<noteq> 0 \<or> q < 60"
  shows "seconds_to_readable_time q = claimed_readable_time q"
proof (cases "q = 0")
  case True
  then show ?thesis by (simp add: seconds_to_readable_time_def claimed_readable_time_def)
next
  case False
  define a where "a = \<lfloor>q / 60\<rfloor>"
  have a0: "0 \<le> a" using assms(1) by (simp add: a_def)
  have m0: "py_floordiv q 60 = of_int a" by (simp add: py_floordiv_def a_def)
  have h0: "0 \<le> a div 60" using a0 by (simp add: pos_imp_zdiv_nonneg_iff)
  have mm: "0 \<le> a mod 60" by simp
  have s0: "0 \<le> py_mod q 60" using py_mod_range by blast
  have small: "a = 0" if "q < 60"
  proof -
    have "q / 60 < 1" using that by simp
    moreover have "0 \<le> q / 60" using assms(1) by simp
    ultimately show ?thesis unfolding a_def by linarith
  qed
  define H where "H = a div 60"
  define M where "M = a mod 60"
  define hs where "hs = (if H = 0 then [] else str_int H @ py ''h'')"
  define ms where "ms = (if M = 0 then [] else str_int M @ py ''m'')"
  have H0: "0 \<le> H" using h0 by (simp add: H_def)
  have M0: "0 \<le> M" by (simp add: M_def)
  have hpos: "(0 < H) = (H \<noteq> 0)" using H0 by auto
  have mpos: "(0 < M) = (M \<noteq> 0)" using M0 by auto
  have empty: "(hs @ ms = []) = (H = 0 \<and> M = 0)"
    by (simp add: hs_def ms_def py_def)
  have code: "seconds_to_readable_time q =
      Some (if 0 < py_mod q 60 \<or> hs @ ms = []
            then (hs @ ms) @ str_int (py_round (py_mod q 60)) @ py ''s'' else hs @ ms)"
    using False hpos mpos
    by (simp add: seconds_to_readable_time_def Let_def m0 py_floordiv_of_int py_mod_of_int
        py_round_of_int hs_def ms_def py_nonempty H_def [symmetric] M_def [symmetric])
  have claim: "claimed_readable_time q =
      Some (hs @ ms @ (if py_round (py_mod q 60) = 0 \<and> \<not> (H = 0 \<and> M = 0) then []
                       else str_int (py_round (py_mod q 60)) @ py ''s''))"
    using False
    by (simp add: claimed_readable_time_def Let_def m0 py_floordiv_of_int py_mod_of_int
        py_round_of_int hs_def ms_def py_nonempty H_def [symmetric] M_def [symmetric])
  have key: "(0 < py_mod q 60 \<or> (H = 0 \<and> M = 0))
     = (\<not> (py_round (py_mod q 60) = 0 \<and> \<not> (H = 0 \<and> M = 0)))"
  proof (cases "H = 0 \<and> M = 0")
    case True
    then show ?thesis by simp
  next
    case ne: False
    then have "a \<noteq> 0" by (auto simp: H_def M_def)
    then have "\<not> q < 60" using small by blast
    then have "py_mod q 60 = 0 \<or> py_round (py_mod q 60) \<noteq> 0" using assms(2) by blast
    then show ?thesis
    proof
      assume z: "py_mod q 60 = 0"
      then have "py_round (py_mod q 60) = 0" using py_round_of_int [of 0] by simp
      then show ?thesis using z ne by simp
    next
      assume r: "py_round (py_mod q 60) \<noteq> 0"
      then have "py_mod q 60 \<noteq> 0" using py_round_of_int [of 0] by auto
      then have "0 < py_mod q 60" using s0 by simp
      then show ?thesis using r by simp
    qed
  qed
  show ?thesis
    unfolding code claim empty key by auto
qed

lemma readable_time_int:
  assumes "0 \<le> n"
  shows "seconds_to_readable_time (of_int n) = claimed_readable_time (of_int n)"
proof -
  have "py_mod (of_int n) 60 = of_int (n mod 60)" by (rule py_mod_of_int)
  then have "py_mod (of_int n) 60 = 0 \<or> py_round (py_mod (of_int n) 60) \<noteq> 0"
    by (simp add: py_round_of_int)
  then have "py_mod (of_int n) 60 = 0 \<or> py_round (py_mod (of_int n) 60) \<noteq> 0 \<or> (of_int n :: rat) < 60"
    by blast
  moreover have "(0 :: rat) \<le> of_int n" using assms by simp
  ultimately show ?thesis by (rule readable_time_agrees [rotated])
qed

text \<open>
  C7 as stated fails on a fractional input and on a negative one. For 60.25 seconds the
  seconds component 0.25 is positive, so the source appends it although it rounds to 0:
  the result is 1m0s where the claim gives 1m. For -5 seconds the hours component is -1,
  which the source drops because it is not positive, where the claim renders it.
\<close>

theorem readable_time_counterexample:
  "seconds_to_readable_time (241 / 4) = Some (py ''1m0s'')
   \<and> claimed_readable_time (241 / 4) = Some (py ''1m'')
   \<and> seconds_to_readable_time (- 5) = Some (py ''59m55s'')
   \<and> claimed_readable_time (- 5) = Some (py ''-1h59m55s'')"
  by code_simp

text \<open>
  C7 (as amended). The function returns \<open>None\<close> for 0. For every non-negative input whose
  seconds component (the input modulo 60) is zero or rounds to a non-zero integer, or
  that is below 60, and so for every non-negative integer, it returns the rendering the
  claim describes. In particular 45 gives 45s, 90 gives 1m30s and 3661 gives 1h1m1s.
\<close>

theorem readable_time_as_claimed:
  "seconds_to_readable_time 0 = None
   \<and> (0 \<le> q \<and> (py_mod q 60 = 0 \<or> py_round (py_mod q 60) \<noteq> 0 \<or> q < 60)
        \<longrightarrow> seconds_to_readable_time q = claimed_readable_time q)
   \<and> (0 \<le> n \<longrightarrow> seconds_to_readable_time (of_int n) = claimed_readable_time (of_int n))
   \<and> seconds_to_readable_time 45 = Some (py ''45s'')
   \<and> seconds_to_readable_time 90 = Some (py ''1m30s'')
   \<and> seconds_to_readable_time 3661 = Some (py ''1h1m1s'')"
proof -
  have "seconds_to_readable_time 0 = None"
    by (simp add: seconds_to_readable_time_def)
  moreover have "seconds_to_readable_time 45 = Some (py ''45s'')" by code_simp
  moreover have "seconds_to_readable_time 90 = Some (py ''1m30s'')" by code_simp
  moreover have "seconds_to_readable_time 3661 = Some (py ''1h1m1s'')" by code_simp
  ultimately show ?thesis
    using readable_time_agrees [of q] readable_time_int [of n] by blast
qed

theorem readable_time_as_claimed_witness:
  "seconds_to_readable_time (of_int 3661) = claimed_readable_time (of_int 3661)
   \<and> seconds_to_readable_time (119 / 2) = claimed_readable_time (119 / 2)
   \<and> claimed_readable_time (119 / 2) = Some (py ''60s'')"
proof -
  have "py_round (py_mod (119 / 2) 60) \<noteq> 0" by code_simp
  moreover have "claimed_readable_time (119 / 2) = Some (py ''60s'')" by code_simp
  ultimately show ?thesis
    using readable_time_as_claimed [of "119 / 2" 3661] by simp
qed

section \<open>Properties of the report renderer\<close>

lemma metrics_loop_concat:
  "metrics_loop lib prev c acc ms =
     acc @ concat (map (\<lambda>(n, v). metric_line lib prev c n v) ms)"
  by (induction ms arbitrary: acc) auto

lemma categories_loop_concat:
  "categories_loop lib prev acc cs =
     acc @ concat (map (\<lambda>(c, md). newline # py ''>*'' @ category_value lib c @ py '':*''
                          @ concat (map (\<lambda>(n, v). metric_line lib prev c n v) (metrics md))) cs)"
  by (induction cs arbitrary: acc) (auto simp: metrics_loop_concat)

lemma metric_line_None: "metric_line lib prev c n None = no_data_line lib n"
  by (simp add: metric_line_def no_data_line_def py_def)

lemma metric_line_Some:
  "metric_line lib prev c n (Some v) =
     value_line lib n
       (if n = total_video_duration then str_opt (seconds_to_readable_time (num_val v))
        else str_val lib (Some v))
       (compare_str lib (Some v) (prev_period_value prev c n))"
  by (simp add: metric_line_def value_line_def Let_def py_def)

text \<open>
  C9. The message is the concatenation, category by category, of a header and one line
  per metric. A metric whose current value is \<open>None\<close> gets the line saying that no data
  was found. A current value that is literally 0 (or 0.0) gets a value line: the value
  reads 0 for an integer count (for the total video duration the duration formatter's
  \<open>None\<close> is what is interpolated), followed by the comparison string. A metric that is
  \<open>None\<close> or missing in the comparison period has the comparison string saying that
  there is no data for the previous period.
\<close>

theorem zero_is_a_value_none_is_no_data:
  "build_analytics_message lib metrics_data prev =
     concat (map (\<lambda>(c, md). newline # py ''>*'' @ category_value lib c @ py '':*''
                     @ concat (map (\<lambda>(n, v). metric_line lib prev c n v) (metrics md)))
               (data metrics_data))
   \<and> metric_line lib prev c n None = no_data_line lib n
   \<and> (num_val v = 0 \<longrightarrow>
        metric_line lib prev c n (Some v) =
          value_line lib n
            (if n = total_video_duration then py ''None'' else str_val lib (Some v))
            (compare_str lib (Some v) (prev_period_value prev c n)))
   \<and> str_val lib (Some (PyInt 0)) = py ''0''
   \<and> compare_str lib val None = py ''(No data for previous period)''
   \<and> (prev_period_value prev c n = None \<longrightarrow>
        metric_line lib prev c n (Some v) =
          value_line lib n
            (if n = total_video_duration then str_opt (seconds_to_readable_time (num_val v))
             else str_val lib (Some v))
            (py ''(No data for previous period)''))"
proof (intro conjI impI)
  show "build_analytics_message lib metrics_data prev =
     concat (map (\<lambda>(c, md). newline # py ''>*'' @ category_value lib c @ py '':*''
                     @ concat (map (\<lambda>(n, v). metric_line lib prev c n v) (metrics md)))
               (data metrics_data))"
    by (simp add: build_analytics_message_def categories_loop_concat)
next
  show "metric_line lib prev c n None = no_data_line lib n"
    by (rule metric_line_None)
next
  assume "num_val v = 0"
  then show "metric_line lib prev c n (Some v) =
          value_line lib n
            (if n = total_video_duration then py ''None'' else str_val lib (Some v))
            (compare_str lib (Some v) (prev_period_value prev c n))"
    by (simp add: metric_line_Some seconds_to_readable_time_def str_opt_def)
next
  show "str_val lib (Some (PyInt 0)) = py ''0''"
    by (simp add: str_int_def str_nat.simps py_def)
next
  show "compare_str lib val None = py ''(No data for previous period)''"
    by (simp add: compare_str_def)
next
  assume "prev_period_value prev c n = None"
  then show "metric_line lib prev c n (Some v) =
          value_line lib n
            (if n = total_video_duration then str_opt (seconds_to_readable_time (num_val v))
             else str_val lib (Some v))
            (py ''(No data for previous period)'')"
    by (simp add: metric_line_Some compare_str_def)
qed

theorem zero_is_a_value_none_is_no_data_witness:
  "build_analytics_message example_lib
     \<lparr>data = [(cat_export, \<lparr>metrics = [(total_exports, Some (PyInt 0)), (export_fcp, None)]\<rparr>)]\<rparr>
     \<lparr>data = []\<rparr>
   = newline # py ''>*category:*''
     @ newline # py ''>          - *metric:* 0 (No data for previous period)''
     @ newline # py ''>f          - *metric:* No data found''"
  using zero_is_a_value_none_is_no_data
    [of example_lib
        "\<lparr>data = [(cat_export, \<lparr>metrics = [(total_exports, Some (PyInt 0)), (export_fcp, None)]\<rparr>)]\<rparr>"
        "\<lparr>data = []\<rparr>" cat_export total_exports "PyInt 0" "Some (PyInt 0)"]
  by (simp add: prev_period_value_def value_line_def no_data_line_def example_lib_def
      py_def metric_line_None str_int_def str_nat.simps)

text \<open>
  C10. When the current value is truthy and the value of the comparison period is
  exactly 0 (or 0.0), the comparison string is the text None, because
  \<open>format_percentage_change\<close> returns \<open>None\<close> for a falsy argument; the line that is
  emitted is the value line ending in that text, not a percentage and not a 100% marker.
\<close>

theorem zero_prior_renders_None:
  "truthy_val (Some v) \<and> num_val p = 0 \<longrightarrow>
     format_percentage_change lib (Some v) (Some p) = None
     \<and> compare_str lib (Some v) (Some p) = py ''None''
     \<and> (prev_period_value prev c n = Some p \<longrightarrow>
          metric_line lib prev c n (Some v) =
            value_line lib n
              (if n = total_video_duration
               then str_opt (seconds_to_readable_time (num_val v))
               else str_val lib (Some v))
              (py ''None''))"
proof (intro impI conjI)
  assume a: "truthy_val (Some v) \<and> num_val p = 0"
  then show "format_percentage_change lib (Some v) (Some p) = None"
    by (simp add: format_percentage_change_def)
  from a show cs: "compare_str lib (Some v) (Some p) = py ''None''"
    by (simp add: compare_str_def format_percentage_change_def str_opt_def)
  assume pv: "prev_period_value prev c n = Some p"
  show "metric_line lib prev c n (Some v) =
            value_line lib n
              (if n = total_video_duration
               then str_opt (seconds_to_readable_time (num_val v))
               else str_val lib (Some v))
              (py ''None'')"
    using cs pv by (simp add: metric_line_Some)
qed

theorem zero_prior_renders_None_witness:
  "metric_line example_lib
     \<lparr>data = [(cat_export, \<lparr>metrics = [(total_exports, Some (PyInt 0))]\<rparr>)]\<rparr>
     cat_export total_exports (Some (PyInt 5))
   = newline # py ''>          - *metric:* 5 None''"
proof -
  have "prev_period_value
          \<lparr>data = [(cat_export, \<lparr>metrics = [(total_exports, Some (PyInt 0))]\<rparr>)]\<rparr>
          cat_export total_exports = Some (PyInt 0)"
    by (simp add: prev_period_value_def)
  then show ?thesis
    using zero_prior_renders_None
      [of "PyInt 5" "PyInt 0" example_lib
          "\<lparr>data = [(cat_export, \<lparr>metrics = [(total_exports, Some (PyInt 0))]\<rparr>)]\<rparr>"
          cat_export total_exports]
    by (simp add: value_line_def example_lib_def py_def str_int_def str_nat.simps)
qed

section \<open>Properties of the aggregator\<close>

lemma handle_export_event_unrecognized:
  assumes "handle_export_event lib (JObj ev) ua = Inr (po, ua')" "\<not> recognized lib ev"
  shows "po = None \<and> ua' = ua"
  using assms
  by (auto simp: handle_export_event_def recognized_def Let_def
      split: json.splits sum.splits if_splits option.splits)

lemma handle_export_event_recognized:
  assumes "handle_export_event lib (JObj ev) ua = Inr (po, ua')" "recognized lib ev"
  shows "\<exists>p. po = Some p \<and> files_info_of lib ev = Inr (file_info p) \<and>
          (case map_of (projects ua) (project_id_of ev) of
             None \<Rightarrow> ua' = ua \<and> projetc_id p = project_id_of ev
           | Some ex \<Rightarrow> projetc_id p = projetc_id ex
                \<and> ua' = ua\<lparr>projects := AList.update (project_id_of ev) p (projects ua)\<rparr>)"
  using assms
  by (auto simp: handle_export_event_def recognized_def Let_def project_id_of_def files_info_of_def
      add_prompt_def add_export_def
      split: json.splits sum.splits if_splits option.splits)

lemma set_update_subset: "set (AList.update k v al) \<subseteq> insert (k, v) (set al)"
  by (induction al) auto

lemma get_activity_ok:
  assumes "store_ok st"
  shows "email (get_activity st k) = k \<and> proj_ok (get_activity st k)"
proof (cases "map_of st k")
  case None
  then show ?thesis by (simp add: get_activity_def proj_ok_def)
next
  case (Some ua)
  then have "(k, ua) \<in> set st" by (rule map_of_SomeD)
  then show ?thesis using assms Some by (auto simp: get_activity_def store_ok_def)
qed

lemma process_event_JObj:
  "process_event lib st (i, e) = Inr st' \<Longrightarrow> \<exists>ev. e = JObj ev"
  by (cases e) (simp_all add: process_event_def)

lemma process_event_skip:
  assumes "process_event lib st (i, JObj ev) = Inr st'" "\<not> (is_event ev \<and> recognized lib ev)"
  shows "st' = st"
proof (cases "is_event ev")
  case False
  then show ?thesis using assms(1) by (simp add: process_event_def is_event_def)
next
  case True
  then have nr: "\<not> recognized lib ev" using assms(2) by simp
  obtain po ua' where
    h: "handle_export_event lib (JObj ev) (get_activity st (user_id_of lib ev i)) = Inr (po, ua')"
    using assms(1) True
    by (auto simp: process_event_def is_event_def Let_def split: sum.splits)
  have "po = None" using handle_export_event_unrecognized [OF h nr] by simp
  then show ?thesis
    using assms(1) True h by (simp add: process_event_def is_event_def Let_def)
qed

lemma process_event_hit:
  assumes ok: "store_ok st"
    and run: "process_event lib st (i, JObj ev) = Inr st'"
    and ev: "is_event ev" "recognized lib ev"
  shows "\<exists>p. projetc_id p = project_id_of ev \<and> files_info_of lib ev = Inr (file_info p)
           \<and> st' = AList.update (user_id_of lib ev i)
                    ((get_activity st (user_id_of lib ev i))
                       \<lparr>projects := AList.update (project_id_of ev) p
                           (projects (get_activity st (user_id_of lib ev i)))\<rparr>) st"
proof -
  let ?k = "user_id_of lib ev i"
  let ?ua = "get_activity st ?k"
  let ?pid = "project_id_of ev"
  obtain po ua' where h: "handle_export_event lib (JObj ev) ?ua = Inr (po, ua')"
    using run ev(1)
    by (auto simp: process_event_def is_event_def Let_def split: sum.splits)
  from handle_export_event_recognized [OF h ev(2)] obtain p where
    p: "po = Some p" "files_info_of lib ev = Inr (file_info p)"
    and c: "case map_of (projects ?ua) ?pid of
             None \<Rightarrow> ua' = ?ua \<and> projetc_id p = ?pid
           | Some ex \<Rightarrow> projetc_id p = projetc_id ex
                \<and> ua' = ?ua\<lparr>projects := AList.update ?pid p (projects ?ua)\<rparr>"
    by blast
  have st': "st' = add_activity st (add_project ua' p)"
    using run ev(1) h p(1) by (simp add: process_event_def is_event_def Let_def)
  have em: "email ?ua = ?k" and pok: "proj_ok ?ua" using get_activity_ok [OF ok] by auto
  have both: "projetc_id p = ?pid
       \<and> add_project ua' p = ?ua\<lparr>projects := AList.update ?pid p (projects ?ua)\<rparr>"
  proof (cases "map_of (projects ?ua) ?pid")
    case None
    then show ?thesis using c by (simp add: add_project_def)
  next
    case (Some ex)
    then have "(?pid, ex) \<in> set (projects ?ua)" by (rule map_of_SomeD)
    then have "projetc_id ex = ?pid" using pok by (auto simp: proj_ok_def)
    then show ?thesis using c Some by (simp add: add_project_def)
  qed
  show ?thesis
    using both p(2) st' em by (auto simp: add_activity_def)
qed

lemma process_event_ok:
  assumes "store_ok st" "process_event lib st r = Inr st'"
  shows "store_ok st'"
proof -
  obtain i e where r: "r = (i, e)" by (cases r)
  then obtain ev where e: "e = JObj ev" using assms(2) process_event_JObj by blast
  show ?thesis
  proof (cases "is_event ev \<and> recognized lib ev")
    case False
    then have "st' = st" using process_event_skip [OF assms(2) [unfolded r e]] by simp
    then show ?thesis using assms(1) by simp
  next
    case True
    let ?k = "user_id_of lib ev i"
    let ?ua = "get_activity st ?k"
    from process_event_hit [OF assms(1) assms(2) [unfolded r e]] True obtain p where
      p: "projetc_id p = project_id_of ev"
      and st': "st' = AList.update ?k
                 (?ua\<lparr>projects := AList.update (project_id_of ev) p (projects ?ua)\<rparr>) st"
      by blast
    have em: "email ?ua = ?k" and pok: "proj_ok ?ua" using get_activity_ok [OF assms(1)] by auto
    have "proj_ok (?ua\<lparr>projects := AList.update (project_id_of ev) p (projects ?ua)\<rparr>)"
      using pok p set_update_subset [of "project_id_of ev" p "projects ?ua"]
      by (auto simp: proj_ok_def)
    then show ?thesis
      using assms(1) em
        set_update_subset [of ?k "?ua\<lparr>projects := AList.update (project_id_of ev) p (projects ?ua)\<rparr>" st]
      unfolding st' store_ok_def by auto
  qed
qed

lemma process_event_keys:
  assumes "store_ok st" "process_event lib st (i, JObj ev) = Inr st'"
  shows "fst ` set st' =
           fst ` set st \<union> (if is_event ev \<and> recognized lib ev then {user_id_of lib ev i} else {})"
    and "distinct (map fst st) \<Longrightarrow> distinct (map fst st')"
proof -
  show "fst ` set st' =
           fst ` set st \<union> (if is_event ev \<and> recognized lib ev then {user_id_of lib ev i} else {})"
  proof (cases "is_event ev \<and> recognized lib ev")
    case False
    then have "st' = st" using process_event_skip [OF assms(2)] by simp
    then show ?thesis using False by auto
  next
    case True
    then obtain A where "st' = AList.update (user_id_of lib ev i) A st"
      using process_event_hit [OF assms] by blast
    then have "fst ` set st' = {user_id_of lib ev i} \<union> fst ` set st"
      by (simp only: dom_update)
    then show ?thesis using True by auto
  qed
  show "distinct (map fst st')" if "distinct (map fst st)"
  proof (cases "is_event ev \<and> recognized lib ev")
    case False
    then have "st' = st" using process_event_skip [OF assms(2)] by simp
    then show ?thesis using that by simp
  next
    case True
    then obtain A where "st' = AList.update (user_id_of lib ev i) A st"
      using process_event_hit [OF assms] by blast
    then show ?thesis using that by (simp only: distinct_update)
  qed
qed

lemma events_loop_append:
  "events_loop lib st (xs @ ys) =
     (case events_loop lib st xs of Inl e \<Rightarrow> Inl e | Inr st' \<Rightarrow> events_loop lib st' ys)"
  by (induction xs arbitrary: st) (auto split: sum.splits)

lemma files_loop_flat:
  "files_loop lib st files = events_loop lib st (indexed_records files)"
proof (induction files arbitrary: st)
  case Nil
  then show ?case by (simp add: indexed_records_def)
next
  case (Cons f fs)
  have "indexed_records (f # fs) = List.enumerate 1 f @ indexed_records fs"
    by (simp add: indexed_records_def)
  then show ?case using Cons by (simp add: events_loop_append split: sum.splits)
qed

lemma events_loop_keys:
  assumes "store_ok st" "distinct (map fst st)" "events_loop lib st rs = Inr st'"
  shows "store_ok st' \<and> distinct (map fst st')
       \<and> fst ` set st' = fst ` set st
            \<union> {user_id_of lib ev i | i ev. (i, JObj ev) \<in> set rs \<and> is_event ev \<and> recognized lib ev}"
  using assms
proof (induction rs arbitrary: st)
  case Nil
  then show ?case by simp
next
  case (Cons r rs)
  obtain st1 where st1: "process_event lib st r = Inr st1" "events_loop lib st1 rs = Inr st'"
    using Cons.prems(3) by (auto split: sum.splits)
  obtain i e where r: "r = (i, e)" by (cases r)
  then obtain ev where e: "e = JObj ev" using st1(1) process_event_JObj by blast
  have ok1: "store_ok st1" using process_event_ok [OF Cons.prems(1) st1(1)] .
  have d1: "distinct (map fst st1)"
    using process_event_keys(2) [OF Cons.prems(1) st1(1) [unfolded r e]] Cons.prems(2) by simp
  have k1: "fst ` set st1 = fst ` set st
      \<union> (if is_event ev \<and> recognized lib ev then {user_id_of lib ev i} else {})"
    using process_event_keys(1) [OF Cons.prems(1) st1(1) [unfolded r e]] .
  have ih: "store_ok st' \<and> distinct (map fst st')
       \<and> fst ` set st' = fst ` set st1
            \<union> {user_id_of lib ev i | i ev. (i, JObj ev) \<in> set rs \<and> is_event ev \<and> recognized lib ev}"
    using Cons.IH [OF ok1 d1 st1(2)] .
  show ?case
    using ih k1 unfolding r e by auto
qed

lemma emails_of_store:
  "store_ok st \<Longrightarrow> map email (get_all_activities st) = map fst st"
  by (induction st) (auto simp: get_all_activities_def store_ok_def)

text \<open>
  C1. Whenever \<open>parse_export_data\<close> returns a list, the identity keys of the list are
  exactly the identity keys of the records that are recognized events (prompt submitted,
  suggested prompt clicked, export succeeded), and no key occurs twice. An identity
  all of whose records are of other event types, or are not events, is not in the list.
\<close>

theorem identities_are_recognized_users:
  assumes "parse_export_data lib files = Inr acts"
  shows "set (map email acts) =
           {user_id_of lib ev i | i ev.
              (i, JObj ev) \<in> set (indexed_records files) \<and> is_event ev \<and> recognized lib ev}
         \<and> distinct (map email acts)"
proof -
  obtain st where st: "files_loop lib [] files = Inr st" "acts = get_all_activities st"
    using assms by (auto simp: parse_export_data_def split: sum.splits)
  have ev: "events_loop lib [] (indexed_records files) = Inr st"
    using st(1) by (simp add: files_loop_flat)
  have ok0: "store_ok []" by (simp add: store_ok_def)
  have "store_ok st \<and> distinct (map fst st)
       \<and> fst ` set st = fst ` set []
            \<union> {user_id_of lib ev i | i ev.
                 (i, JObj ev) \<in> set (indexed_records files) \<and> is_event ev \<and> recognized lib ev}"
    using events_loop_keys [OF ok0 _ ev] by simp
  then show ?thesis
    using emails_of_store [of st] st(2) by simp
qed

theorem identities_are_recognized_users_witness:
  "JStr (py ''u1'') \<in> set (map email
      [\<lparr>email = JStr (py ''u1''),
        projects = [(JStr (py ''p1''),
                     \<lparr>projetc_id = JStr (py ''p1''), project_name = JNull, file_info = None,
                        prompts = [JStr (py ''cut'')], exports = []\<rparr>)]\<rparr>])
   \<and> JStr (py ''u2'') \<notin>
      {user_id_of example_lib ev i | i ev.
         (i, JObj ev) \<in> set (indexed_records
            [[example_event (py ''u1'') (py ''user_submit_prompt'')
                [(py ''projectId'', JStr (py ''p1'')), (py ''prompt'', JStr (py ''cut''))],
              example_event (py ''u2'') (py ''page_view'') []]])
         \<and> is_event ev \<and> recognized example_lib ev}"
proof -
  have run: "parse_export_data example_lib
      [[example_event (py ''u1'') (py ''user_submit_prompt'')
          [(py ''projectId'', JStr (py ''p1'')), (py ''prompt'', JStr (py ''cut''))],
        example_event (py ''u2'') (py ''page_view'') []]]
    = Inr [\<lparr>email = JStr (py ''u1''),
             projects = [(JStr (py ''p1''),
                          \<lparr>projetc_id = JStr (py ''p1''), project_name = JNull,
                             file_info = None, prompts = [JStr (py ''cut'')],
                             exports = []\<rparr>)]\<rparr>]"
    by code_simp
  have "JStr (py ''u2'') \<noteq> JStr (py ''u1'')" by (simp add: py_def)
  then show ?thesis
    using identities_are_recognized_users [OF run] by auto
qed

lemma file_info_at_hit:
  assumes ok: "store_ok st"
    and run: "process_event lib st (i, JObj ev) = Inr st'"
    and ev: "is_event ev" "recognized lib ev"
    and fi: "files_info_of lib ev = Inr fi"
  shows "file_info_at st' (user_id_of lib ev i) (project_id_of ev) = Some fi"
proof -
  from process_event_hit [OF ok run ev] obtain p where
    p: "files_info_of lib ev = Inr (file_info p)"
    and st': "st' = AList.update (user_id_of lib ev i)
                    ((get_activity st (user_id_of lib ev i))
                       \<lparr>projects := AList.update (project_id_of ev) p
                           (projects (get_activity st (user_id_of lib ev i)))\<rparr>) st"
    by blast
  have "file_info p = fi" using p fi by simp
  then show ?thesis
    unfolding st' by (simp add: file_info_at_def update_conv')
qed

lemma file_info_at_miss:
  assumes ok: "store_ok st"
    and run: "process_event lib st r = Inr st'"
    and miss: "\<not> touches lib k pid r"
  shows "file_info_at st' k pid = file_info_at st k pid"
proof -
  obtain i e where r: "r = (i, e)" by (cases r)
  then obtain ev where e: "e = JObj ev" using run process_event_JObj by blast
  show ?thesis
  proof (cases "is_event ev \<and> recognized lib ev")
    case False
    then have "st' = st" using process_event_skip [OF run [unfolded r e]] by simp
    then show ?thesis by simp
  next
    case True
    let ?k = "user_id_of lib ev i"
    let ?ua = "get_activity st ?k"
    from process_event_hit [OF ok run [unfolded r e]] True obtain p where
      st': "st' = AList.update ?k
                 (?ua\<lparr>projects := AList.update (project_id_of ev) p (projects ?ua)\<rparr>) st"
      by blast
    show ?thesis
    proof (cases "?k = k")
      case False
      then show ?thesis unfolding st' by (simp add: file_info_at_def update_conv')
    next
      case same: True
      then have pid: "project_id_of ev \<noteq> pid"
        using miss True by (simp add: touches_def r e)
      have "map_of (projects ?ua) pid
            = (case map_of st k of None \<Rightarrow> None | Some ua \<Rightarrow> map_of (projects ua) pid)"
        using same by (simp add: get_activity_def split: option.splits)
      then show ?thesis
        unfolding st' using same pid
        by (simp add: file_info_at_def update_conv' split: option.splits)
    qed
  qed
qed

lemma events_loop_ok:
  "store_ok st \<Longrightarrow> events_loop lib st rs = Inr st' \<Longrightarrow> store_ok st'"
proof (induction rs arbitrary: st)
  case Nil
  then show ?case by simp
next
  case (Cons r rs)
  then obtain st1 where "process_event lib st r = Inr st1" "events_loop lib st1 rs = Inr st'"
    by (auto split: sum.splits)
  then show ?case using Cons.IH Cons.prems(1) process_event_ok by blast
qed

lemma events_loop_miss:
  assumes "store_ok st" "events_loop lib st rs = Inr st'" "\<forall>r \<in> set rs. \<not> touches lib k pid r"
  shows "file_info_at st' k pid = file_info_at st k pid"
  using assms
proof (induction rs arbitrary: st)
  case Nil
  then show ?case by simp
next
  case (Cons r rs)
  obtain st1 where st1: "process_event lib st r = Inr st1" "events_loop lib st1 rs = Inr st'"
    using Cons.prems(2) by (auto split: sum.splits)
  have ok1: "store_ok st1" using process_event_ok [OF Cons.prems(1) st1(1)] .
  have "file_info_at st1 k pid = file_info_at st k pid"
    using file_info_at_miss [OF Cons.prems(1) st1(1)] Cons.prems(3) by simp
  moreover have "file_info_at st' k pid = file_info_at st1 k pid"
    using Cons.IH [OF ok1 st1(2)] Cons.prems(3) by simp
  ultimately show ?case by simp
qed

lemma file_info_at_D:
  assumes "store_ok st" "file_info_at st k pid = Some fi"
  shows "\<exists>ua pr. ua \<in> set (get_all_activities st) \<and> email ua = k
           \<and> map_of (projects ua) pid = Some pr \<and> file_info pr = fi"
proof -
  from assms(2) obtain ua pr where
    ua: "map_of st k = Some ua" and pr: "map_of (projects ua) pid = Some pr" "file_info pr = fi"
    by (auto simp: file_info_at_def split: option.splits)
  have mem: "(k, ua) \<in> set st" using ua by (rule map_of_SomeD)
  then have "email ua = k" using assms(1) by (auto simp: store_ok_def)
  moreover have "ua \<in> set (get_all_activities st)"
    using mem by (force simp: get_all_activities_def)
  ultimately show ?thesis using pr by blast
qed

text \<open>
  C3 as stated fails when the last event for a project carries no file metadata: the
  source assigns \<open>file_info\<close> on every recognized event, so it is reset to \<open>None\<close>. Two
  prompts of user u1 on project p1, the first with one file a.mp4 of 500 bytes and the
  second without \<open>projectFileInfo\<close>, leave \<open>file_info\<close> unset, although the most recent
  event that carried file metadata has the summary a.mp4 (500 B).
\<close>

theorem file_info_reset_counterexample:
  "parse_export_data example_lib
     [[example_event (py ''u1'') (py ''user_submit_prompt'')
         (prompt_props (Some (one_file (py ''a.mp4'') 500))),
       example_event (py ''u1'') (py ''user_submit_prompt'') (prompt_props None)]]
   = Inr [\<lparr>email = JStr (py ''u1''),
            projects = [(JStr (py ''p1''),
                         \<lparr>projetc_id = JStr (py ''p1''), project_name = JNull,
                            file_info = None,
                            prompts = [JStr (py ''cut''), JStr (py ''cut'')],
                            exports = []\<rparr>)]\<rparr>]
   \<and> files_info_of example_lib
         (example_fields (py ''u1'') (py ''user_submit_prompt'')
            (prompt_props (Some (one_file (py ''a.mp4'') 500))))
       = Inr (Some (py ''a.mp4 (500 B)''))
   \<and> files_info_of example_lib
         (example_fields (py ''u1'') (py ''user_submit_prompt'') (prompt_props None))
       = Inr None"
  by code_simp

text \<open>
  C3 (as amended). Whenever \<open>parse_export_data\<close> returns a list: for every recognized
  event of the input after which no recognized event of the same identity and the same
  project id follows, the list holds the activity of that identity, the activity holds
  the project, and the project's \<open>file_info\<close> is the summary computed from that event
  alone (\<open>None\<close> when the event carries no usable file metadata). The summary of the
  last recognized event overwrites whatever the earlier events left; nothing is merged.
\<close>

theorem file_info_is_last_write:
  assumes run: "parse_export_data lib files = Inr acts"
    and split: "indexed_records files = before @ (i, JObj ev) # after"
    and ev: "is_event ev" "recognized lib ev"
    and last: "\<forall>r \<in> set after. \<not> touches lib (user_id_of lib ev i) (project_id_of ev) r"
  shows "\<exists>ua pr. ua \<in> set acts \<and> email ua = user_id_of lib ev i
           \<and> map_of (projects ua) (project_id_of ev) = Some pr
           \<and> files_info_of lib ev = Inr (file_info pr)"
proof -
  obtain st where st: "files_loop lib [] files = Inr st" "acts = get_all_activities st"
    using run by (auto simp: parse_export_data_def split: sum.splits)
  have loop: "events_loop lib [] (before @ (i, JObj ev) # after) = Inr st"
    using st(1) split by (simp add: files_loop_flat)
  then obtain st1 where st1: "events_loop lib [] before = Inr st1"
    and rest: "events_loop lib st1 ((i, JObj ev) # after) = Inr st"
    by (auto simp: events_loop_append split: sum.splits)
  then obtain st2 where st2: "process_event lib st1 (i, JObj ev) = Inr st2"
    and tail: "events_loop lib st2 after = Inr st"
    by (auto split: sum.splits)
  have ok0: "store_ok []" by (simp add: store_ok_def)
  have ok1: "store_ok st1" using events_loop_ok [OF ok0 st1] .
  have ok2: "store_ok st2" using process_event_ok [OF ok1 st2] .
  have ok: "store_ok st" using events_loop_ok [OF ok2 tail] .
  obtain p :: ProjectInfo where p: "files_info_of lib ev = Inr (file_info p)"
    using process_event_hit [OF ok1 st2 ev] by blast
  have "file_info_at st2 (user_id_of lib ev i) (project_id_of ev) = Some (file_info p)"
    using file_info_at_hit [OF ok1 st2 ev p] .
  then have "file_info_at st (user_id_of lib ev i) (project_id_of ev) = Some (file_info p)"
    using events_loop_miss [OF ok2 tail last] by simp
  then show ?thesis
    using file_info_at_D [OF ok] p st(2) by metis
qed

theorem file_info_is_last_write_witness:
  "case parse_export_data example_lib
     [[example_event (py ''u1'') (py ''user_submit_prompt'')
         (prompt_props (Some (one_file (py ''a.mp4'') 500))),
       example_event (py ''u1'') (py ''user_submit_prompt'')
         (prompt_props (Some (one_file (py ''b.mp4'') 600))),
       example_event (py ''u1'') (py ''user_submit_prompt'')
         (prompt_props (Some (one_file (py ''c.mp4'') 700)))]] of
     Inl e \<Rightarrow> False
   | Inr acts \<Rightarrow>
       (\<exists>ua pr. ua \<in> set acts \<and> email ua = JStr (py ''u1'')
          \<and> map_of (projects ua) (JStr (py ''p1'')) = Some pr
          \<and> file_info pr = Some (py ''c.mp4 (700 B)''))"
proof -
  let ?a = "example_event (py ''u1'') (py ''user_submit_prompt'')
              (prompt_props (Some (one_file (py ''a.mp4'') 500)))"
  let ?b = "example_event (py ''u1'') (py ''user_submit_prompt'')
              (prompt_props (Some (one_file (py ''b.mp4'') 600)))"
  let ?c = "example_fields (py ''u1'') (py ''user_submit_prompt'')
              (prompt_props (Some (one_file (py ''c.mp4'') 700)))"
  have c: "example_event (py ''u1'') (py ''user_submit_prompt'')
              (prompt_props (Some (one_file (py ''c.mp4'') 700))) = JObj ?c"
    by (simp add: example_event_def)
  have run: "parse_export_data example_lib [[?a, ?b, JObj ?c]]
    = Inr [\<lparr>email = JStr (py ''u1''),
             projects = [(JStr (py ''p1''),
                          \<lparr>projetc_id = JStr (py ''p1''), project_name = JNull,
                             file_info = Some (py ''c.mp4 (700 B)''),
                             prompts = [JStr (py ''cut''), JStr (py ''cut''), JStr (py ''cut'')],
                             exports = []\<rparr>)]\<rparr>]"
    by code_simp
  have split: "indexed_records [[?a, ?b, JObj ?c]] = [(1, ?a), (2, ?b)] @ (3, JObj ?c) # []"
    by code_simp
  have ev: "is_event ?c" "recognized example_lib ?c" by code_simp+
  have vals: "user_id_of example_lib ?c 3 = JStr (py ''u1'')"
    "project_id_of ?c = JStr (py ''p1'')"
    "files_info_of example_lib ?c = Inr (Some (py ''c.mp4 (700 B)''))"
    by code_simp+
  have "\<exists>ua pr. ua \<in> set [\<lparr>email = JStr (py ''u1''),
             projects = [(JStr (py ''p1''),
                          \<lparr>projetc_id = JStr (py ''p1''), project_name = JNull,
                             file_info = Some (py ''c.mp4 (700 B)''),
                             prompts = [JStr (py ''cut''), JStr (py ''cut''), JStr (py ''cut'')],
                             exports = []\<rparr>)]\<rparr>]
          \<and> email ua = user_id_of example_lib ?c 3
          \<and> map_of (projects ua) (project_id_of ?c) = Some pr
          \<and> files_info_of example_lib ?c = Inr (file_info pr)"
    using file_info_is_last_write [OF run split ev] by simp
  then show ?thesis
    unfolding c run vals by simp
qed

subsection \<open>The identity key\<close>

lemma indexed_records_mem:
  "((i, e) \<in> set (indexed_records files))
     = (\<exists>file_data \<in> set files. 1 \<le> i \<and> i \<le> length file_data \<and> file_data ! (i - 1) = e)"
  by (auto simp: indexed_records_def in_set_enumerate_eq less_Suc_eq_le)

lemma parse_export_data_flat:
  "parse_export_data lib files =
     (case events_loop lib [] (indexed_records files) of
        Inl e \<Rightarrow> Inl e
      | Inr st \<Rightarrow> Inr (get_all_activities st))"
  by (simp add: parse_export_data_def files_loop_flat)

text \<open>
  C2 as stated fails on a second input file: the counter comes from
  \<open>enumerate(data, start=1)\<close> inside the loop over the files, so it is the position of
  the record within its own file. Two files of one anonymous prompt each give both
  records the counter 1 and the one identity Anonymous (Amplitude ID-1), where the
  position in the overall input would give the second record the number 2.
\<close>

theorem anonymous_index_counterexample:
  "indexed_records
     [[example_event [] (py ''user_submit_prompt'') (prompt_props None)],
      [example_event [] (py ''user_submit_prompt'') (prompt_props None)]]
   = [(1, example_event [] (py ''user_submit_prompt'') (prompt_props None)),
      (1, example_event [] (py ''user_submit_prompt'') (prompt_props None))]
   \<and> parse_export_data example_lib
     [[example_event [] (py ''user_submit_prompt'') (prompt_props None)],
      [example_event [] (py ''user_submit_prompt'') (prompt_props None)]]
   = Inr [\<lparr>email = JStr (py ''Anonymous (Amplitude ID-1)''),
            projects = [(JStr (py ''p1''),
                         \<lparr>projetc_id = JStr (py ''p1''), project_name = JNull,
                            file_info = None,
                            prompts = [JStr (py ''cut''), JStr (py ''cut'')],
                            exports = []\<rparr>)]\<rparr>]"
  by code_simp

text \<open>
  C2 (as amended). \<open>parse_export_data\<close> runs the loop body over the records of all
  files in order, each record with its 1-based position within its own file; for an
  event record the body looks the activity up under the identity key \<open>user_id_of\<close>. That
  key is the record's \<open>user_id\<close> when it is present and truthy (non-empty); otherwise
  it is the text Anonymous (Amplitude ID-x) where x is the record's \<open>amplitude_id\<close> if
  the record has that key, and otherwise the position of the record within its file.
\<close>

theorem identity_key_of_record:
  "parse_export_data lib files =
     (case events_loop lib [] (indexed_records files) of
        Inl e \<Rightarrow> Inl e
      | Inr st \<Rightarrow> Inr (get_all_activities st))
   \<and> (((i, e) \<in> set (indexed_records files))
        = (\<exists>file_data \<in> set files. 1 \<le> i \<and> i \<le> length file_data \<and> file_data ! (i - 1) = e))
   \<and> (is_event ev \<longrightarrow>
        process_event lib st (i, JObj ev) =
          (case handle_export_event lib (JObj ev) (get_activity st (user_id_of lib ev i)) of
             Inl err \<Rightarrow> Inl err
           | Inr (None, ua') \<Rightarrow> Inr st
           | Inr (Some p, ua') \<Rightarrow> Inr (add_activity st (add_project ua' p))))
   \<and> (truthy (get ev (py ''user_id'')) \<longrightarrow> user_id_of lib ev i = get ev (py ''user_id''))
   \<and> (\<not> truthy (get ev (py ''user_id'')) \<longrightarrow>
        user_id_of lib ev i =
          JStr (py ''Anonymous (Amplitude ID-''
                 @ (case map_of ev (py ''amplitude_id'') of
                      Some a \<Rightarrow> py_str lib a
                    | None \<Rightarrow> str_int (int i))
                 @ py '')''))"
proof (intro conjI impI)
  show "parse_export_data lib files =
     (case events_loop lib [] (indexed_records files) of
        Inl e \<Rightarrow> Inl e
      | Inr st \<Rightarrow> Inr (get_all_activities st))"
    by (rule parse_export_data_flat)
next
  show "((i, e) \<in> set (indexed_records files))
        = (\<exists>file_data \<in> set files. 1 \<le> i \<and> i \<le> length file_data \<and> file_data ! (i - 1) = e)"
    by (rule indexed_records_mem)
next
  assume "is_event ev"
  then show "process_event lib st (i, JObj ev) =
          (case handle_export_event lib (JObj ev) (get_activity st (user_id_of lib ev i)) of
             Inl err \<Rightarrow> Inl err
           | Inr (None, ua') \<Rightarrow> Inr st
           | Inr (Some p, ua') \<Rightarrow> Inr (add_activity st (add_project ua' p)))"
    by (simp add: process_event_def is_event_def Let_def split: sum.splits option.splits)
next
  assume "truthy (get ev (py ''user_id''))"
  then show "user_id_of lib ev i = get ev (py ''user_id'')"
    by (simp add: user_id_of_def)
next
  assume "\<not> truthy (get ev (py ''user_id''))"
  then show "user_id_of lib ev i =
          JStr (py ''Anonymous (Amplitude ID-''
                 @ (case map_of ev (py ''amplitude_id'') of
                      Some a \<Rightarrow> py_str lib a
                    | None \<Rightarrow> str_int (int i))
                 @ py '')'')"
    by (simp add: user_id_of_def getd_def split: option.splits)
qed

theorem identity_key_of_record_witness:
  "user_id_of example_lib (example_fields (py ''u1'') (py ''page_view'') []) 7 = JStr (py ''u1'')
   \<and> user_id_of example_lib (example_fields [] (py ''page_view'') []) 7
       = JStr (py ''Anonymous (Amplitude ID-7)'')
   \<and> user_id_of example_lib
         ((py ''amplitude_id'', JInt 42) # example_fields [] (py ''page_view'') []) 7
       = JStr (py ''Anonymous (Amplitude ID-42)'')"
proof -
  have t: "truthy (get (example_fields (py ''u1'') (py ''page_view'') []) (py ''user_id''))"
    "get (example_fields (py ''u1'') (py ''page_view'') []) (py ''user_id'') = JStr (py ''u1'')"
    by code_simp+
  have f: "\<not> truthy (get (example_fields [] (py ''page_view'') []) (py ''user_id''))"
    "\<not> truthy (get ((py ''amplitude_id'', JInt 42) # example_fields [] (py ''page_view'') [])
                  (py ''user_id''))"
    by code_simp+
  have m: "map_of (example_fields [] (py ''page_view'') []) (py ''amplitude_id'') = None"
    "map_of ((py ''amplitude_id'', JInt 42) # example_fields [] (py ''page_view'') [])
       (py ''amplitude_id'') = Some (JInt 42)"
    by code_simp+
  have s: "py ''Anonymous (Amplitude ID-'' @ str_int (int 7) @ py '')''
             = py ''Anonymous (Amplitude ID-7)''"
    "py ''Anonymous (Amplitude ID-'' @ py_str example_lib (JInt 42) @ py '')''
             = py ''Anonymous (Amplitude ID-42)''"
    by code_simp+
  show ?thesis
    using identity_key_of_record [of example_lib "[]" 7 JNull
            "example_fields (py ''u1'') (py ''page_view'') []" "[]"]
      identity_key_of_record [of example_lib "[]" 7 JNull
            "example_fields [] (py ''page_view'') []" "[]"]
      identity_key_of_record [of example_lib "[]" 7 JNull
            "(py ''amplitude_id'', JInt 42) # example_fields [] (py ''page_view'') []" "[]"]
      t f m s
    by simp
qed

subsection \<open>Malformed file info\<close>













end
